theory Spec2Isabelle
  imports Main "HOL-Library.AList" "HOL-Library.Sublist" "HOL-Library.Multiset"
begin

section \<open>Data model of package composite\<close>

text \<open>
  Modelled from the spec: the configuration types \<open>Catalog\<close>, \<open>CatalogConfig\<close>,
  \<open>Component\<close>, \<open>CompositeConfig\<close>, \<open>TemplateDefinition\<close> and \<open>BuilderConfig\<close> are
  declared in another file of package composite. The records below carry the fields
  that \<open>composite.go\<close> reads, under the names it reads them by, with the types the
  external-interface section of the specification gives them. Several structs share a
  field name (\<open>Name\<close>, \<open>Schema\<close>, \<open>Destination\<close>); such a field is always written
  with its record's name in front.
\<close>

record BuilderConfig =
  OutputType :: string

record CatalogDestination =
  WorkingDir :: string

record Catalog =
  Name :: string
  Destination :: CatalogDestination
  Builders :: "string list"

record CatalogConfig =
  Schema :: string
  Catalogs :: "Catalog list"

record TemplateDefinition =
  Schema :: string
  Config :: string

record BuildStrategy =
  Template :: TemplateDefinition

record ComponentDestination =
  Path :: string

record Component =
  Name :: string
  Destination :: ComponentDestination
  Strategy :: BuildStrategy

record CompositeConfig =
  Schema :: string
  Components :: "Component list"

text \<open>
  Go's \<open>map[string]V\<close> is an association list with distinct keys, kept in insertion
  order: \<open>m[k] = v\<close> is \<open>AList.update k v m\<close>, \<open>v, ok := m[k]\<close> is \<open>map_of m k\<close>.
  \<open>Builder\<close> is an interface declared outside this file; its values are the type
  parameter \<open>'b\<close>.
\<close>

type_synonym 'b BuilderMap = "(string \<times> 'b) list"

type_synonym 'b CatalogBuilderMap = "(string \<times> 'b BuilderMap) list"

type_synonym 'b builderFunc = "BuilderConfig \<Rightarrow> 'b"

record ('rd, 'reg, 'b) Template =
  catalogFile :: 'rd
  contributionFile :: 'rd
  validate :: bool
  outputType :: string
  registry :: 'reg
  registeredBuilders :: "string \<rightharpoonup> 'b builderFunc"

subsection \<open>Errors\<close>

text \<open>
  Every \<open>fmt.Errorf\<close> of the file is a constructor that keeps the arguments of the
  format. \<open>External\<close> is an error value made outside the package (by a builder, a
  decoder, the operating system), known by its message.
\<close>

datatype error =
    External string
  | OpeningCatalogConfig string error
  | FetchingRemoteCatalogConfig string error
  | DecodingCatalogConfig error
  | UnmarshallingCatalogConfig error
  | CatalogUnknownSchema string
  | DecodingCompositeConfig error
  | UnmarshallingCompositeConfig error
  | CompositeUnknownSchema string
  | UnknownSchema string
  | GettingBuilder string string error
  | FieldValidationFailed string
  | BuildingComponent string error
  | ValidatingComponent string error
  | NoBuilderFound string string
  | ComponentNotInCatalog string "string list"

text \<open>
  \<open>errors.Unwrap\<close>: only the two formats of \<open>Render\<close> that use the verb \<open>%w\<close> keep
  their cause; \<open>%v\<close> keeps the text alone.
\<close>

fun Unwrap :: "error \<Rightarrow> error option" where
  "Unwrap (BuildingComponent name err) = Some err"
| "Unwrap (ValidatingComponent name err) = Some err"
| "Unwrap _ = None"

definition newline :: string where
  "newline = [CHR 0x0A]"

text \<open>
  The method \<open>Error()\<close>. The verb \<open>%q\<close> is \<open>strconv.Quote\<close>, taken as the parameter
  \<open>quote\<close>; \<open>%s\<close> of a string slice is its elements between brackets, separated by
  one space.
\<close>

fun joinSpace :: "string list \<Rightarrow> string" where
  "joinSpace [] = []"
| "joinSpace [x] = x"
| "joinSpace (x # y # ys) = x @ '' '' @ joinSpace (y # ys)"

fun Error :: "(string \<Rightarrow> string) \<Rightarrow> error \<Rightarrow> string" where
  "Error quote (External msg) = msg"
| "Error quote (OpeningCatalogConfig path err) =
     ''opening catalog config file '' @ quote path @ '': '' @ Error quote err"
| "Error quote (FetchingRemoteCatalogConfig path err) =
     ''fetching remote catalog config file '' @ quote path @ '': '' @ Error quote err"
| "Error quote (DecodingCatalogConfig err) = ''decoding catalog config: '' @ Error quote err"
| "Error quote (UnmarshallingCatalogConfig err) =
     ''unmarshalling catalog config: '' @ Error quote err"
| "Error quote (CatalogUnknownSchema expected) =
     ''catalog configuration file has unknown schema, should be '' @ quote expected"
| "Error quote (DecodingCompositeConfig err) = ''decoding composite config: '' @ Error quote err"
| "Error quote (UnmarshallingCompositeConfig err) =
     ''unmarshalling composite config: '' @ Error quote err"
| "Error quote (CompositeUnknownSchema expected) =
     ''composite configuration file has unknown schema, should be '' @ quote expected"
| "Error quote (UnknownSchema schema) = ''unknown schema '' @ quote schema"
| "Error quote (GettingBuilder schema name err) =
     ''getting builder '' @ quote schema @ '' for catalog '' @ quote name @ '': ''
       @ Error quote err"
| "Error quote (FieldValidationFailed errMsg) =
     ''catalog configuration file field validation failed: '' @ errMsg"
| "Error quote (BuildingComponent name err) =
     ''building component '' @ quote name @ '': '' @ Error quote err"
| "Error quote (ValidatingComponent name err) =
     ''validating component '' @ quote name @ '': '' @ Error quote err"
| "Error quote (NoBuilderFound name schema) =
     ''building component '' @ quote name @ '': no builder found for template schema ''
       @ quote schema"
| "Error quote (ComponentNotInCatalog name allowedComponents) =
     ''building component '' @ quote name
       @ '': component does not exist in the catalog configuration. Available components are: ''
       @ ''['' @ joinSpace allowedComponents @ '']''"

subsection \<open>Iteration over a map\<close>

text \<open>
  Go leaves the order of \<open>for k, v := range m\<close> open. The order of one run is fixed
  by a list of numbers: each number picks the next entry among those not yet visited
  (when the numbers run out the rest comes in insertion order). Every order of the
  entries is the result of some such list (\<open>goRange_any_order\<close> below), and every
  result is an order of the entries (\<open>goRange_mset\<close>).
\<close>

fun goRange :: "nat list \<Rightarrow> 'a list \<Rightarrow> 'a list" where
  "goRange picks [] = []"
| "goRange [] xs = xs"
| "goRange (n # picks) xs =
     (let i = n mod length xs
      in xs ! i # goRange picks (take i xs @ drop (Suc i) xs))"

subsection \<open>The collaborators\<close>

text \<open>
  What \<open>composite.go\<close> calls and does not define: the two schema constants, the
  YAML-or-JSON decoder, \<open>json.Unmarshal\<close> at the two target types, the methods of
  the \<open>Builder\<close> interface, and the run's iteration order over maps.
  \<open>Build\<close> and \<open>Validate\<close> act on a world \<open>'w\<close> (the file system they write to) and
  return \<open>None\<close> for a nil error.
\<close>

record ('rd, 'b, 'ctx, 'reg, 'w) Externals =
  CatalogSchema :: string
  CompositeSchema :: string
  Decode :: "'rd \<Rightarrow> error + string"
  UnmarshalCatalogConfig :: "string \<Rightarrow> error + CatalogConfig"
  UnmarshalCompositeConfig :: "string \<Rightarrow> error + CompositeConfig"
  Build :: "'b \<Rightarrow> 'ctx \<Rightarrow> 'reg \<Rightarrow> string \<Rightarrow> TemplateDefinition \<Rightarrow> 'w \<Rightarrow> error option \<times> 'w"
  Validate :: "'b \<Rightarrow> 'ctx \<Rightarrow> string \<Rightarrow> 'w \<Rightarrow> error option \<times> 'w"
  rangePicks :: "nat list"

text \<open>
  The calls made on builders are recorded, in order, beside the world they act on.
\<close>

datatype ('b, 'ctx, 'reg) Call =
    BuildCall 'b 'ctx 'reg string TemplateDefinition
  | ValidateCall 'b 'ctx string

record ('b, 'ctx, 'reg, 'w) RunState =
  world :: 'w
  calls :: "('b, 'ctx, 'reg) Call list"

definition callBuild ::
  "('rd, 'b, 'ctx, 'reg, 'w) Externals \<Rightarrow> 'b \<Rightarrow> 'ctx \<Rightarrow> 'reg \<Rightarrow> string \<Rightarrow> TemplateDefinition
     \<Rightarrow> ('b, 'ctx, 'reg, 'w) RunState \<Rightarrow> error option \<times> ('b, 'ctx, 'reg, 'w) RunState" where
  "callBuild d builder ctx reg path tmpl s =
     (case Build d builder ctx reg path tmpl (world s) of
        (r, w) \<Rightarrow> (r, \<lparr>world = w, calls = calls s @ [BuildCall builder ctx reg path tmpl]\<rparr>))"

definition callValidate ::
  "('rd, 'b, 'ctx, 'reg, 'w) Externals \<Rightarrow> 'b \<Rightarrow> 'ctx \<Rightarrow> string
     \<Rightarrow> ('b, 'ctx, 'reg, 'w) RunState \<Rightarrow> error option \<times> ('b, 'ctx, 'reg, 'w) RunState" where
  "callValidate d builder ctx path s =
     (case Validate d builder ctx path (world s) of
        (r, w) \<Rightarrow> (r, \<lparr>world = w, calls = calls s @ [ValidateCall builder ctx path]\<rparr>))"

section \<open>Template options\<close>

definition WithCatalogFile :: "'rd \<Rightarrow> ('rd, 'reg, 'b) Template \<Rightarrow> ('rd, 'reg, 'b) Template" where
  "WithCatalogFile f t = t\<lparr>catalogFile := f\<rparr>"

definition WithContributionFile :: "'rd \<Rightarrow> ('rd, 'reg, 'b) Template \<Rightarrow> ('rd, 'reg, 'b) Template" where
  "WithContributionFile f t = t\<lparr>contributionFile := f\<rparr>"

definition WithOutputType :: "string \<Rightarrow> ('rd, 'reg, 'b) Template \<Rightarrow> ('rd, 'reg, 'b) Template" where
  "WithOutputType ot t = t\<lparr>outputType := ot\<rparr>"

definition WithRegistry :: "'reg \<Rightarrow> ('rd, 'reg, 'b) Template \<Rightarrow> ('rd, 'reg, 'b) Template" where
  "WithRegistry reg t = t\<lparr>registry := reg\<rparr>"

definition WithValidate :: "bool \<Rightarrow> ('rd, 'reg, 'b) Template \<Rightarrow> ('rd, 'reg, 'b) Template" where
  "WithValidate v t = t\<lparr>validate := v\<rparr>"

section \<open>Parsing the two documents\<close>

definition parseCatalogsSpec ::
  "('rd, 'b, 'ctx, 'reg, 'w) Externals \<Rightarrow> ('rd, 'reg, 'b) Template \<Rightarrow> error + CatalogConfig" where
  "parseCatalogsSpec d t =
     (case Decode d (catalogFile t) of
        Inl err \<Rightarrow> Inl (DecodingCatalogConfig err)
      | Inr catalogDoc \<Rightarrow>
          (case UnmarshalCatalogConfig d catalogDoc of
             Inl err \<Rightarrow> Inl (UnmarshallingCatalogConfig err)
           | Inr catalogConfig \<Rightarrow>
               if CatalogConfig.Schema catalogConfig \<noteq> CatalogSchema d
               then Inl (CatalogUnknownSchema (CatalogSchema d))
               else Inr catalogConfig))"

definition parseContributionSpec ::
  "('rd, 'b, 'ctx, 'reg, 'w) Externals \<Rightarrow> ('rd, 'reg, 'b) Template \<Rightarrow> error + CompositeConfig" where
  "parseContributionSpec d t =
     (case Decode d (contributionFile t) of
        Inl err \<Rightarrow> Inl (DecodingCompositeConfig err)
      | Inr compositeDoc \<Rightarrow>
          (case UnmarshalCompositeConfig d compositeDoc of
             Inl err \<Rightarrow> Inl (UnmarshallingCompositeConfig err)
           | Inr compositeConfig \<Rightarrow>
               if CompositeConfig.Schema compositeConfig \<noteq> CompositeSchema d
               then Inl (CompositeUnknownSchema (CompositeSchema d))
               else Inr compositeConfig))"

section \<open>The catalog-builder matrix\<close>

definition builderForSchema ::
  "('rd, 'reg, 'b) Template \<Rightarrow> string \<Rightarrow> BuilderConfig \<Rightarrow> error + 'b" where
  "builderForSchema t schema builderCfg =
     (case registeredBuilders t schema of
        None \<Rightarrow> Inl (UnknownSchema schema)
      | Some builderFunc \<Rightarrow> Inr (builderFunc builderCfg))"

text \<open>
  The inner loop of \<open>newCatalogBuilderMap\<close>, over \<open>catalog.Builders\<close>. A factory
  only makes a value: it does not touch the world. (The parameters \<open>outputType\<close> and
  \<open>validate\<close> of the source carry a prime here, their plain names being the fields of
  the template.)
\<close>

fun schemasLoop ::
  "('rd, 'reg, 'b) Template \<Rightarrow> string \<Rightarrow> string \<Rightarrow> string list \<Rightarrow> 'b BuilderMap
     \<Rightarrow> error + 'b BuilderMap" where
  "schemasLoop t outputType' name [] builderMap = Inr builderMap"
| "schemasLoop t outputType' name (schema # schemas) builderMap =
     (case builderForSchema t schema \<lparr>OutputType = outputType'\<rparr> of
        Inl err \<Rightarrow> Inl (GettingBuilder schema name err)
      | Inr builder \<Rightarrow>
          schemasLoop t outputType' name schemas (AList.update schema builder builderMap))"

text \<open>
  The variables the outer loop updates, and the field checks at the head of its body
  (the check of \<open>destination.baseImage\<close> is commented out in the source).
\<close>

record 'b loopVars =
  catalogBuilderMap :: "'b CatalogBuilderMap"
  setupFailed :: bool
  setupErrors :: "(string \<times> string list) list"

definition validateCatalog :: "Catalog \<Rightarrow> string list" where
  "validateCatalog catalog =
     (let errs = []
      in if WorkingDir (Catalog.Destination catalog) = ''''
         then errs @ [''destination.workingDir must not be an empty string'']
         else errs)"

fun catalogsLoop ::
  "('rd, 'reg, 'b) Template \<Rightarrow> string \<Rightarrow> Catalog list \<Rightarrow> 'b loopVars \<Rightarrow> error + 'b loopVars" where
  "catalogsLoop t outputType' [] st = Inr st"
| "catalogsLoop t outputType' (catalog # catalogs) st =
     (let errs = validateCatalog catalog
      in if length errs > 0
         then catalogsLoop t outputType' catalogs
                (st\<lparr>setupFailed := True,
                    setupErrors := AList.update (Catalog.Name catalog) errs (setupErrors st)\<rparr>)
         else if map_of (catalogBuilderMap st) (Catalog.Name catalog) = None
         then (case schemasLoop t outputType' (Catalog.Name catalog) (Builders catalog) [] of
                 Inl err \<Rightarrow> Inl err
               | Inr builderMap \<Rightarrow>
                   catalogsLoop t outputType' catalogs
                     (st\<lparr>catalogBuilderMap :=
                           AList.update (Catalog.Name catalog) builderMap (catalogBuilderMap st)\<rparr>))
         else catalogsLoop t outputType' catalogs st)"

text \<open>The message built from \<open>setupErrors\<close> in the order the map is ranged over.\<close>

definition catalogErrors :: "string \<times> string list \<Rightarrow> string" where
  "catalogErrors = (\<lambda>(cat, errs).
     newline @ ''Catalog '' @ cat @ '':'' @ newline
       @ foldl (\<lambda>errMsg err. errMsg @ ''  - '' @ err @ newline) [] errs)"

definition buildErrMsg :: "nat list \<Rightarrow> (string \<times> string list) list \<Rightarrow> string" where
  "buildErrMsg picks errors =
     foldl (\<lambda>errMsg entry. errMsg @ catalogErrors entry) [] (goRange picks errors)"

definition newCatalogBuilderMap ::
  "('rd, 'b, 'ctx, 'reg, 'w) Externals \<Rightarrow> ('rd, 'reg, 'b) Template \<Rightarrow> Catalog list \<Rightarrow> string
     \<Rightarrow> error + 'b CatalogBuilderMap" where
  "newCatalogBuilderMap d t catalogs outputType' =
     (case catalogsLoop t outputType' catalogs
             \<lparr>catalogBuilderMap = [], setupFailed = False, setupErrors = []\<rparr> of
        Inl err \<Rightarrow> Inl err
      | Inr st \<Rightarrow>
          if setupFailed st
          then Inl (FieldValidationFailed (buildErrMsg (rangePicks d) (setupErrors st)))
          else Inr (catalogBuilderMap st))"

section \<open>Render\<close>

text \<open>The loop over \<open>contributionFile.Components\<close>.\<close>

fun renderComponents ::
  "('rd, 'b, 'ctx, 'reg, 'w) Externals \<Rightarrow> ('rd, 'reg, 'b) Template \<Rightarrow> 'b CatalogBuilderMap
     \<Rightarrow> 'ctx \<Rightarrow> bool \<Rightarrow> Component list \<Rightarrow> ('b, 'ctx, 'reg, 'w) RunState
     \<Rightarrow> error option \<times> ('b, 'ctx, 'reg, 'w) RunState" where
  "renderComponents d t cbm ctx validate' [] s = (None, s)"
| "renderComponents d t cbm ctx validate' (component # components) s =
     (case map_of cbm (Component.Name component) of
        Some builderMap \<Rightarrow>
          (case map_of builderMap
                  (TemplateDefinition.Schema (Template (Strategy component))) of
             Some builder \<Rightarrow>
               (case callBuild d builder ctx (registry t)
                       (Path (Component.Destination component))
                       (Template (Strategy component)) s of
                  (Some err, s1) \<Rightarrow> (Some (BuildingComponent (Component.Name component) err), s1)
                | (None, s1) \<Rightarrow>
                    if validate'
                    then (case callValidate d builder ctx
                                 (Path (Component.Destination component)) s1 of
                            (Some err, s2) \<Rightarrow>
                              (Some (ValidatingComponent (Component.Name component) err), s2)
                          | (None, s2) \<Rightarrow> renderComponents d t cbm ctx validate' components s2)
                    else renderComponents d t cbm ctx validate' components s1)
           | None \<Rightarrow>
               (Some (NoBuilderFound (Component.Name component)
                        (TemplateDefinition.Schema (Template (Strategy component)))), s))
      | None \<Rightarrow>
          (Some (ComponentNotInCatalog (Component.Name component)
                   (map fst (goRange (rangePicks d) cbm))), s))"

definition Render ::
  "('rd, 'b, 'ctx, 'reg, 'w) Externals \<Rightarrow> ('rd, 'reg, 'b) Template \<Rightarrow> 'ctx \<Rightarrow> bool
     \<Rightarrow> ('b, 'ctx, 'reg, 'w) RunState \<Rightarrow> error option \<times> ('b, 'ctx, 'reg, 'w) RunState" where
  "Render d t ctx validate' s =
     (case parseCatalogsSpec d t of
        Inl err \<Rightarrow> (Some err, s)
      | Inr catalogFile' \<Rightarrow>
          (case parseContributionSpec d t of
             Inl err \<Rightarrow> (Some err, s)
           | Inr contributionFile' \<Rightarrow>
               (case newCatalogBuilderMap d t (Catalogs catalogFile') (outputType t) of
                  Inl err \<Rightarrow> (Some err, s)
                | Inr cbm \<Rightarrow>
                    renderComponents d t cbm ctx validate' (Components contributionFile') s)))"

text \<open>
  The calls one component gives rise to when it is processed to the end: \<open>Build\<close> on
  the builder that the registered factory of its schema makes for the template's output
  type, with the template's registry, the component's path and its template; then, when
  validation is asked for, \<open>Validate\<close> on the same builder and path.
\<close>

definition componentCalls ::
  "('rd, 'reg, 'b) Template \<Rightarrow> 'ctx \<Rightarrow> bool \<Rightarrow> Component \<Rightarrow> ('b, 'ctx, 'reg) Call list" where
  "componentCalls t ctx validate' component =
     (case registeredBuilders t (TemplateDefinition.Schema (Template (Strategy component))) of
        None \<Rightarrow> []
      | Some builderFunc \<Rightarrow>
          BuildCall (builderFunc \<lparr>OutputType = outputType t\<rparr>) ctx (registry t)
              (Path (Component.Destination component)) (Template (Strategy component))
            # (if validate'
               then [ValidateCall (builderFunc \<lparr>OutputType = outputType t\<rparr>) ctx
                       (Path (Component.Destination component))]
               else []))"

text \<open>
  What a list of recorded calls returns when the calls are made one after the other
  from a world: the result of each call, in order.
\<close>

fun execCall ::
  "('rd, 'b, 'ctx, 'reg, 'w) Externals \<Rightarrow> ('b, 'ctx, 'reg) Call \<Rightarrow> 'w \<Rightarrow> error option \<times> 'w" where
  "execCall d (BuildCall builder ctx reg path tmpl) w = Build d builder ctx reg path tmpl w"
| "execCall d (ValidateCall builder ctx path) w = Validate d builder ctx path w"

fun execCalls ::
  "('rd, 'b, 'ctx, 'reg, 'w) Externals \<Rightarrow> ('b, 'ctx, 'reg) Call list \<Rightarrow> 'w \<Rightarrow> error option list" where
  "execCalls d [] w = []"
| "execCalls d (c # cs) w = (case execCall d c w of (r, w') \<Rightarrow> r # execCalls d cs w')"

section \<open>FetchCatalogConfig\<close>

text \<open>
  \<open>url.ParseRequestURI\<close>, \<open>URL.String\<close>, \<open>filepath.IsAbs\<close> and \<open>os.Open\<close> belong
  to the standard library and are parameters; the \<open>HttpGetter\<close> is the argument the
  function is given. Opening a file and sending a request act on a world \<open>'w\<close>, and
  each is recorded. The body of a response is a value of the type \<open>'rc\<close> of readers that
  the function returns.
\<close>

record 'rc Response =
  StatusCode :: int
  Body :: 'rc

datatype IOCall = OpenCall string | GetCall string

record 'w IOState =
  ioWorld :: 'w
  ioCalls :: "IOCall list"

record ('u, 'rc, 'w) FetchExternals =
  ParseRequestURI :: "string \<Rightarrow> error + 'u"
  URLString :: "'u \<Rightarrow> string"
  IsAbs :: "string \<Rightarrow> bool"
  Open :: "string \<Rightarrow> 'w \<Rightarrow> (error + 'rc) \<times> 'w"

type_synonym ('rc, 'w) HttpGetter = "string \<Rightarrow> 'w \<Rightarrow> (error + 'rc Response) \<times> 'w"

definition FetchCatalogConfig ::
  "('u, 'rc, 'w) FetchExternals \<Rightarrow> string \<Rightarrow> ('rc, 'w) HttpGetter \<Rightarrow> 'w IOState
     \<Rightarrow> (error + 'rc) \<times> 'w IOState" where
  "FetchCatalogConfig x path httpGetter s =
     (let parsed = ParseRequestURI x path
      in if isl parsed \<or> IsAbs x path
         then (case Open x path (ioWorld s) of
                 (Inl err, w) \<Rightarrow>
                   (Inl (OpeningCatalogConfig path err),
                    \<lparr>ioWorld = w, ioCalls = ioCalls s @ [OpenCall path]\<rparr>)
               | (Inr tempCatalog, w) \<Rightarrow>
                   (Inr tempCatalog, \<lparr>ioWorld = w, ioCalls = ioCalls s @ [OpenCall path]\<rparr>))
         else (case httpGetter (URLString x (projr parsed)) (ioWorld s) of
                 (Inl err, w) \<Rightarrow>
                   (Inl (FetchingRemoteCatalogConfig path err),
                    \<lparr>ioWorld = w,
                       ioCalls = ioCalls s @ [GetCall (URLString x (projr parsed))]\<rparr>)
               | (Inr tempResp, w) \<Rightarrow>
                   (Inr (Body tempResp),
                    \<lparr>ioWorld = w,
                       ioCalls = ioCalls s @ [GetCall (URLString x (projr parsed))]\<rparr>)))"

section \<open>Concrete collaborators and documents\<close>

text \<open>
  Small collaborators on which the functions above can be run: a decoder that yields
  two given documents, builders that are a pair of a kind and the output type they were
  made with, a \<open>Build\<close> that records the path it wrote (it fails on the template
  configuration \<open>broken\<close> and writes nothing on \<open>empty\<close>), a \<open>Validate\<close> that
  wants the path to have been written.
\<close>

definition stubBuild ::
  "string \<times> string \<Rightarrow> unit \<Rightarrow> unit \<Rightarrow> string \<Rightarrow> TemplateDefinition \<Rightarrow> string list
     \<Rightarrow> error option \<times> string list" where
  "stubBuild b ctx reg path tmpl w =
     (if Config tmpl = ''broken'' then (Some (External ''cannot render''), w)
      else if Config tmpl = ''empty'' then (None, w)
      else (None, w @ [path]))"

definition stubValidate ::
  "string \<times> string \<Rightarrow> unit \<Rightarrow> string \<Rightarrow> string list \<Rightarrow> error option \<times> string list" where
  "stubValidate b ctx path w =
     (if path \<in> set w then (None, w) else (Some (External ''nothing to validate''), w))"

definition stubExternals ::
  "CatalogConfig \<Rightarrow> CompositeConfig \<Rightarrow> nat list
     \<Rightarrow> (unit, string \<times> string, unit, unit, string list) Externals" where
  "stubExternals cc co picks =
     \<lparr>CatalogSchema = ''olm.composite.catalogs'',
      CompositeSchema = ''olm.composite'',
      Decode = (\<lambda>r. Inr []),
      UnmarshalCatalogConfig = (\<lambda>doc. Inr cc),
      UnmarshalCompositeConfig = (\<lambda>doc. Inr co),
      Build = stubBuild,
      Validate = stubValidate,
      rangePicks = picks\<rparr>"

definition stubTemplate :: "(unit, unit, string \<times> string) Template" where
  "stubTemplate =
     \<lparr>catalogFile = (), contributionFile = (), validate = False, outputType = ''json'',
      registry = (),
      registeredBuilders =
        [''olm.builder.basic'' \<mapsto> (\<lambda>bc. (''basic'', OutputType bc)),
         ''olm.builder.raw'' \<mapsto> (\<lambda>bc. (''raw'', OutputType bc))]\<rparr>"

definition mkCatalog :: "string \<Rightarrow> string \<Rightarrow> string list \<Rightarrow> Catalog" where
  "mkCatalog n wd bs =
     \<lparr>Catalog.Name = n, Catalog.Destination = \<lparr>WorkingDir = wd\<rparr>, Builders = bs\<rparr>"

definition mkComponent :: "string \<Rightarrow> string \<Rightarrow> string \<Rightarrow> string \<Rightarrow> Component" where
  "mkComponent n p sch cfg =
     \<lparr>Component.Name = n, Component.Destination = \<lparr>Path = p\<rparr>,
      Strategy = \<lparr>Template = \<lparr>TemplateDefinition.Schema = sch, Config = cfg\<rparr>\<rparr>\<rparr>"

definition mkCatalogConfig :: "Catalog list \<Rightarrow> CatalogConfig" where
  "mkCatalogConfig cs = \<lparr>CatalogConfig.Schema = ''olm.composite.catalogs'', Catalogs = cs\<rparr>"

definition mkCompositeConfig :: "Component list \<Rightarrow> CompositeConfig" where
  "mkCompositeConfig ks = \<lparr>CompositeConfig.Schema = ''olm.composite'', Components = ks\<rparr>"

definition noCalls :: "(string \<times> string, unit, unit, string list) RunState" where
  "noCalls = \<lparr>world = [], calls = []\<rparr>"

text \<open>
  For \<open>FetchCatalogConfig\<close>: a parser that takes a path for a request URI when it
  starts with a slash or holds a colon, the Unix \<open>IsAbs\<close>, a file system with the
  one file \<open>/etc/catalogs.yaml\<close>, and a getter that answers every request with
  status 404 and the body \<open>not found\<close>.
\<close>

definition stubFetch :: "(string, string, unit) FetchExternals" where
  "stubFetch =
     \<lparr>ParseRequestURI =
        (\<lambda>p. if take 1 p = ''/'' \<or> CHR '':'' \<in> set p then Inr p
             else Inl (External ''invalid URI for request'')),
      URLString = (\<lambda>u. u),
      IsAbs = (\<lambda>p. take 1 p = ''/''),
      Open =
        (\<lambda>p w. if p = ''/etc/catalogs.yaml'' then (Inr ''schema: olm.composite.catalogs'', w)
                else (Inl (External ''no such file or directory''), w))\<rparr>"

definition stubGetter :: "(string, unit) HttpGetter" where
  "stubGetter url w = (Inr \<lparr>StatusCode = 404, Body = ''not found''\<rparr>, w)"

section \<open>Facts about ranging over a map and about the two loops of the assembler\<close>

lemma goRange_mset: "mset (goRange picks xs) = mset xs"
proof (induction picks xs rule: goRange.induct)
  case (3 n picks x xs)
  define i where "i = n mod length (x # xs)"
  have i: "i < length (x # xs)" unfolding i_def by simp
  have "mset (x # xs) = mset (take i (x # xs) @ (x # xs) ! i # drop (Suc i) (x # xs))"
    using id_take_nth_drop[OF i] by simp
  moreover have "mset (goRange picks (take i (x # xs) @ drop (Suc i) (x # xs)))
      = mset (take i (x # xs) @ drop (Suc i) (x # xs))"
    using 3 unfolding i_def by simp
  moreover have "goRange (n # picks) (x # xs)
      = (x # xs) ! i # goRange picks (take i (x # xs) @ drop (Suc i) (x # xs))"
    unfolding i_def by (simp add: Let_def)
  ultimately show ?case by simp
qed simp_all

text \<open>Conversely, every order of the entries is the range order of some run.\<close>

lemma goRange_any_order: "mset ys = mset xs \<Longrightarrow> \<exists>picks. goRange picks xs = ys"
proof (induction ys arbitrary: xs)
  case Nil
  then show ?case by simp
next
  case (Cons y ys)
  then have "y \<in> set xs" by (metis list.set_intros(1) mset_eq_setD)
  then obtain i where i: "i < length xs" and y: "xs ! i = y" by (auto simp: in_set_conv_nth)
  have "mset xs = mset (take i xs @ xs ! i # drop (Suc i) xs)"
    using id_take_nth_drop[OF i] by simp
  with Cons.prems y have "mset ys = mset (take i xs @ drop (Suc i) xs)" by simp
  from Cons.IH[OF this] obtain picks where
    picks: "goRange picks (take i xs @ drop (Suc i) xs) = ys" by blast
  from i obtain x xs' where xs: "xs = x # xs'" by (cases xs) auto
  have "goRange (i # picks) xs = xs ! i # goRange picks (take i xs @ drop (Suc i) xs)"
    using i unfolding xs by (simp add: Let_def)
  with picks y show ?case by blast
qed

lemma goRange_set: "set (goRange picks xs) = set xs"
  using goRange_mset[of picks xs] by (rule mset_eq_setD)

lemma goRange_keys_mset: "mset (map fst (goRange picks xs)) = mset (map fst xs)"
  using goRange_mset[of picks xs] by (metis mset_map)

lemma goRange_keys_distinct:
  "distinct (map fst xs) \<Longrightarrow> distinct (map fst (goRange picks xs))"
  using goRange_keys_mset[of picks xs] by (metis mset_eq_imp_distinct_iff)

lemma goRange_keys_set: "set (map fst (goRange picks xs)) = fst ` set xs"
  by (simp add: goRange_set)

lemma schemasLoop_Inl:
  "schemasLoop t ot n schemas bm = Inl e \<Longrightarrow>
     \<exists>s\<in>set schemas. registeredBuilders t s = None \<and> e = GettingBuilder s n (UnknownSchema s)"
  by (induction schemas arbitrary: bm)
     (auto simp: builderForSchema_def split: option.splits sum.splits)

lemma schemasLoop_Inr:
  "set schemas \<subseteq> dom (registeredBuilders t) \<Longrightarrow> \<exists>bm'. schemasLoop t ot n schemas bm = Inr bm'"
  by (induction schemas arbitrary: bm)
     (auto simp: builderForSchema_def split: option.splits sum.splits)

lemma schemasLoop_map_of:
  "schemasLoop t ot n schemas bm = Inr bm' \<Longrightarrow>
     map_of bm' s =
       (if s \<in> set schemas
        then map_option (\<lambda>f. f \<lparr>OutputType = ot\<rparr>) (registeredBuilders t s)
        else map_of bm s)"
proof (induction schemas arbitrary: bm)
  case Nil
  then show ?case by simp
next
  case (Cons a schemas)
  from Cons.prems obtain f where f: "registeredBuilders t a = Some f"
    and rest: "schemasLoop t ot n schemas (AList.update a (f \<lparr>OutputType = ot\<rparr>) bm) = Inr bm'"
    by (auto simp: builderForSchema_def split: option.splits sum.splits)
  from Cons.IH[OF rest] show ?case
    using f by (auto simp: update_conv')
qed

lemma schemasLoop_builderForSchema:
  assumes "schemasLoop t ot n schemas [] = Inr bm" and "map_of bm s = Some b"
  shows "s \<in> set schemas \<and> builderForSchema t s \<lparr>OutputType = ot\<rparr> = Inr b"
  using schemasLoop_map_of[OF assms(1), of s] assms(2)
  by (cases "registeredBuilders t s") (auto simp: builderForSchema_def split: if_splits)

lemma validateCatalog_invalid:
  "WorkingDir (Catalog.Destination c) = '''' \<Longrightarrow>
     validateCatalog c = [''destination.workingDir must not be an empty string'']"
  by (simp add: validateCatalog_def)

lemma validateCatalog_valid:
  "WorkingDir (Catalog.Destination c) \<noteq> '''' \<Longrightarrow> validateCatalog c = []"
  by (simp add: validateCatalog_def)

lemma catalogsLoop_Inl:
  "catalogsLoop t ot cats st = Inl e \<Longrightarrow>
     \<exists>c\<in>set cats. WorkingDir (Catalog.Destination c) \<noteq> '''' \<and>
       (\<exists>s\<in>set (Builders c). registeredBuilders t s = None \<and>
          e = GettingBuilder s (Catalog.Name c) (UnknownSchema s))"
proof (induction cats arbitrary: st)
  case Nil
  then show ?case by simp
next
  case (Cons c cats)
  show ?case
  proof (cases "WorkingDir (Catalog.Destination c) = ''''")
    case True
    with Cons.prems Cons.IH show ?thesis
      by (auto simp: validateCatalog_invalid)
  next
    case False
    with Cons.prems Cons.IH show ?thesis
      by (auto simp: validateCatalog_valid split: if_splits sum.splits dest: schemasLoop_Inl)
  qed
qed

lemma catalogsLoop_Inr:
  "\<forall>c\<in>set cats. WorkingDir (Catalog.Destination c) \<noteq> '''' \<longrightarrow>
       set (Builders c) \<subseteq> dom (registeredBuilders t) \<Longrightarrow>
   \<exists>st'. catalogsLoop t ot cats st = Inr st'"
proof (induction cats arbitrary: st)
  case Nil
  then show ?case by simp
next
  case (Cons c cats)
  show ?case
  proof (cases "WorkingDir (Catalog.Destination c) = ''''")
    case True
    with Cons show ?thesis by (simp add: validateCatalog_invalid)
  next
    case False
    with Cons.prems have "set (Builders c) \<subseteq> dom (registeredBuilders t)" by simp
    from schemasLoop_Inr[OF this, of ot "Catalog.Name c" "[]"]
    obtain bm where "schemasLoop t ot (Catalog.Name c) (Builders c) [] = Inr bm" by blast
    with False Cons show ?thesis by (simp add: validateCatalog_valid)
  qed
qed

lemma catalogsLoop_failed:
  "catalogsLoop t ot cats st = Inr st' \<Longrightarrow>
     setupFailed st' = (setupFailed st \<or> (\<exists>c\<in>set cats. WorkingDir (Catalog.Destination c) = ''''))"
proof (induction cats arbitrary: st)
  case Nil
  then show ?case by simp
next
  case (Cons c cats)
  show ?case
  proof (cases "WorkingDir (Catalog.Destination c) = ''''")
    case True
    with Cons.prems Cons.IH show ?thesis
      by (auto simp: validateCatalog_invalid)
  next
    case False
    with Cons.prems Cons.IH show ?thesis
      by (auto simp: validateCatalog_valid split: if_splits sum.splits)
  qed
qed

lemma catalogsLoop_errors:
  "catalogsLoop t ot cats st = Inr st' \<Longrightarrow>
     map_of (setupErrors st') n =
       (if \<exists>c\<in>set cats. Catalog.Name c = n \<and> WorkingDir (Catalog.Destination c) = ''''
        then Some [''destination.workingDir must not be an empty string'']
        else map_of (setupErrors st) n)"
proof (induction cats arbitrary: st)
  case Nil
  then show ?case by simp
next
  case (Cons c cats)
  show ?case
  proof (cases "WorkingDir (Catalog.Destination c) = ''''")
    case True
    with Cons.prems Cons.IH show ?thesis
      by (auto simp: validateCatalog_invalid update_conv')
  next
    case False
    with Cons.prems Cons.IH show ?thesis
      by (auto simp: validateCatalog_valid split: if_splits sum.splits)
  qed
qed

lemma catalogsLoop_cbm:
  "catalogsLoop t ot cats st = Inr st' \<Longrightarrow>
     map_of (catalogBuilderMap st') n =
       (case map_of (catalogBuilderMap st) n of
          Some bm \<Rightarrow> Some bm
        | None \<Rightarrow>
            (case find (\<lambda>c. Catalog.Name c = n \<and> WorkingDir (Catalog.Destination c) \<noteq> []) cats of
               None \<Rightarrow> None
             | Some c \<Rightarrow>
                 (case schemasLoop t ot n (Builders c) [] of
                    Inr bm \<Rightarrow> Some bm
                  | Inl e \<Rightarrow> None)))"
proof (induction cats arbitrary: st)
  case Nil
  then show ?case by (simp split: option.splits)
next
  case (Cons c cats)
  show ?case
  proof (cases "WorkingDir (Catalog.Destination c) = []")
    case True
    define st1 where "st1 = st\<lparr>setupFailed := True,
      setupErrors := AList.update (Catalog.Name c) (validateCatalog c) (setupErrors st)\<rparr>"
    from Cons.prems True have "catalogsLoop t ot cats st1 = Inr st'"
      by (simp add: validateCatalog_invalid st1_def)
    from Cons.IH[OF this] True show ?thesis by (simp add: st1_def cong: option.case_cong)
  next
    case False
    note valid = this
    show ?thesis
    proof (cases "map_of (catalogBuilderMap st) (Catalog.Name c)")
      case (Some bm0)
      with Cons.prems valid have "catalogsLoop t ot cats st = Inr st'"
        by (simp add: validateCatalog_valid)
      from Cons.IH[OF this] Some valid show ?thesis
        by (cases "Catalog.Name c = n") (simp_all cong: option.case_cong)
    next
      case None
      with Cons.prems valid obtain bm where
        bm: "schemasLoop t ot (Catalog.Name c) (Builders c) [] = Inr bm" and
        rest: "catalogsLoop t ot cats
                 (st\<lparr>catalogBuilderMap :=
                      AList.update (Catalog.Name c) bm (catalogBuilderMap st)\<rparr>) = Inr st'"
        by (auto simp: validateCatalog_valid split: sum.splits)
      from Cons.IH[OF rest] None valid bm show ?thesis
        by (cases "Catalog.Name c = n") (simp_all add: update_conv' cong: option.case_cong)
    qed
  qed
qed

lemma catalogsLoop_distinct:
  "catalogsLoop t ot cats st = Inr st' \<Longrightarrow> distinct (map fst (catalogBuilderMap st)) \<Longrightarrow>
     distinct (map fst (catalogBuilderMap st'))"
proof (induction cats arbitrary: st)
  case Nil
  then show ?case by simp
next
  case (Cons c cats)
  show ?case
  proof (cases "WorkingDir (Catalog.Destination c) = ''''")
    case True
    with Cons.prems Cons.IH show ?thesis
      by (auto simp: validateCatalog_invalid)
  next
    case False
    with Cons.prems Cons.IH show ?thesis
      by (auto simp: validateCatalog_valid distinct_update split: if_splits sum.splits)
  qed
qed

lemma foldl_append_concat: "foldl (\<lambda>acc x. acc @ f x) a xs = a @ concat (map f xs)"
  by (induction xs arbitrary: a) simp_all

lemma buildErrMsg_concat:
  "buildErrMsg picks errs = concat (map catalogErrors (goRange picks errs))"
  by (simp add: buildErrMsg_def foldl_append_concat)

lemma catalogErrors_single:
  "catalogErrors (n, [e]) = newline @ ''Catalog '' @ n @ '':'' @ newline @ ''  - '' @ e @ newline"
  by (simp add: catalogErrors_def)

lemma sublist_concat_map: "x \<in> set xs \<Longrightarrow> sublist (f x) (concat (map f xs))"
proof -
  assume "x \<in> set xs"
  then obtain ys zs where "xs = ys @ x # zs" by (auto dest: split_list)
  then have "concat (map f xs) = concat (map f ys) @ f x @ concat (map f zs)" by simp
  then show ?thesis unfolding sublist_def by blast
qed

lemma buildErrMsg_names:
  assumes "map_of errs n = Some [e]"
  shows "sublist (newline @ ''Catalog '' @ n @ '':'' @ newline @ ''  - '' @ e @ newline)
           (buildErrMsg picks errs)"
proof -
  from assms have "(n, [e]) \<in> set (goRange picks errs)"
    by (simp add: goRange_set map_of_SomeD)
  from sublist_concat_map[OF this, of catalogErrors] show ?thesis
    by (simp only: buildErrMsg_concat catalogErrors_single)
qed

lemma catalogsLoop_first_built:
  "catalogsLoop t ot cats st = Inr st' \<Longrightarrow> map_of (catalogBuilderMap st) n = None \<Longrightarrow>
   find (\<lambda>c. Catalog.Name c = n \<and> WorkingDir (Catalog.Destination c) \<noteq> []) cats = Some c \<Longrightarrow>
   \<exists>bm. schemasLoop t ot n (Builders c) [] = Inr bm"
proof (induction cats arbitrary: st)
  case Nil
  then show ?case by simp
next
  case (Cons c0 cats)
  show ?case
  proof (cases "WorkingDir (Catalog.Destination c0) = []")
    case True
    with Cons.prems have "catalogsLoop t ot cats (st\<lparr>setupFailed := True,
      setupErrors := AList.update (Catalog.Name c0) (validateCatalog c0) (setupErrors st)\<rparr>) = Inr st'"
      by (simp add: validateCatalog_invalid)
    from Cons.IH[OF this] Cons.prems(2,3) True show ?thesis by simp
  next
    case False
    note valid = this
    show ?thesis
    proof (cases "map_of (catalogBuilderMap st) (Catalog.Name c0)")
      case (Some bm0)
      with Cons.prems valid have "catalogsLoop t ot cats st = Inr st'"
        by (simp add: validateCatalog_valid)
      moreover from Some Cons.prems(2) have "Catalog.Name c0 \<noteq> n" by auto
      ultimately show ?thesis using Cons.IH[of st] Cons.prems(2,3) by simp
    next
      case None
      with Cons.prems valid obtain bm where
        bm: "schemasLoop t ot (Catalog.Name c0) (Builders c0) [] = Inr bm" and
        rest: "catalogsLoop t ot cats
                 (st\<lparr>catalogBuilderMap :=
                      AList.update (Catalog.Name c0) bm (catalogBuilderMap st)\<rparr>) = Inr st'"
        by (auto simp: validateCatalog_valid split: sum.splits)
      show ?thesis
      proof (cases "Catalog.Name c0 = n")
        case True
        with Cons.prems(3) valid have "c = c0" by simp
        with bm True show ?thesis by auto
      next
        case False
        with Cons.IH[OF rest] Cons.prems(2,3) show ?thesis by (simp add: update_conv')
      qed
    qed
  qed
qed

lemma newCatalogBuilderMap_Inr:
  assumes "newCatalogBuilderMap d t cats ot = Inr m"
  shows "\<exists>st'. catalogsLoop t ot cats
             \<lparr>catalogBuilderMap = [], setupFailed = False, setupErrors = []\<rparr> = Inr st'
           \<and> \<not> setupFailed st' \<and> m = catalogBuilderMap st'"
  using assms by (auto simp: newCatalogBuilderMap_def split: sum.splits if_splits)

lemma newCatalogBuilderMap_all_valid:
  assumes "newCatalogBuilderMap d t cats ot = Inr m"
  shows "\<forall>c\<in>set cats. WorkingDir (Catalog.Destination c) \<noteq> []"
proof -
  from newCatalogBuilderMap_Inr[OF assms] obtain st' where
    "catalogsLoop t ot cats \<lparr>catalogBuilderMap = [], setupFailed = False, setupErrors = []\<rparr> = Inr st'"
    "\<not> setupFailed st'" by blast
  with catalogsLoop_failed[OF this(1)] show ?thesis by simp
qed

lemma find_all_valid:
  "\<forall>c\<in>set cats. Q c \<Longrightarrow> find (\<lambda>c. P c \<and> Q c) cats = find P cats"
  by (induction cats) simp_all

lemma newCatalogBuilderMap_lookup:
  assumes "newCatalogBuilderMap d t cats ot = Inr m"
  shows "map_of m n =
           (case find (\<lambda>c. Catalog.Name c = n) cats of
              None \<Rightarrow> None
            | Some c \<Rightarrow> (case schemasLoop t ot n (Builders c) [] of Inr bm \<Rightarrow> Some bm | Inl e \<Rightarrow> None))"
    and "find (\<lambda>c. Catalog.Name c = n) cats = Some c \<Longrightarrow>
           \<exists>bm. schemasLoop t ot n (Builders c) [] = Inr bm \<and> map_of m n = Some bm"
proof -
  from newCatalogBuilderMap_Inr[OF assms] obtain st' where
    loop: "catalogsLoop t ot cats \<lparr>catalogBuilderMap = [], setupFailed = False, setupErrors = []\<rparr> = Inr st'"
    and m: "m = catalogBuilderMap st'" by blast
  have fnd: "find (\<lambda>c. Catalog.Name c = n \<and> WorkingDir (Catalog.Destination c) \<noteq> []) cats
           = find (\<lambda>c. Catalog.Name c = n) cats"
    using newCatalogBuilderMap_all_valid[OF assms] by (rule find_all_valid)
  from catalogsLoop_cbm[OF loop, of n] show 1: "map_of m n =
           (case find (\<lambda>c. Catalog.Name c = n) cats of
              None \<Rightarrow> None
            | Some c \<Rightarrow> (case schemasLoop t ot n (Builders c) [] of Inr bm \<Rightarrow> Some bm | Inl e \<Rightarrow> None))"
    by (simp add: m fnd)
  assume c: "find (\<lambda>c. Catalog.Name c = n) cats = Some c"
  from catalogsLoop_first_built[OF loop, of n c] c fnd
  obtain bm where "schemasLoop t ot n (Builders c) [] = Inr bm" by auto
  with 1 c show "\<exists>bm. schemasLoop t ot n (Builders c) [] = Inr bm \<and> map_of m n = Some bm" by simp
qed

lemma newCatalogBuilderMap_dom:
  assumes "newCatalogBuilderMap d t cats ot = Inr m"
  shows "fst ` set m = Catalog.Name ` set cats"
proof -
  have "dom (map_of m) = Catalog.Name ` set cats"
  proof (rule set_eqI)
    fix n
    show "n \<in> dom (map_of m) \<longleftrightarrow> n \<in> Catalog.Name ` set cats"
    proof (cases "find (\<lambda>c. Catalog.Name c = n) cats")
      case None
      then have "n \<notin> Catalog.Name ` set cats" by (auto simp: find_None_iff)
      moreover from newCatalogBuilderMap_lookup(1)[OF assms, of n] None have "map_of m n = None" by simp
      ultimately show ?thesis by (simp add: domIff)
    next
      case (Some c)
      then have "n \<in> Catalog.Name ` set cats" by (auto simp: find_Some_iff)
      moreover from newCatalogBuilderMap_lookup(2)[OF assms Some] have "map_of m n \<noteq> None" by auto
      ultimately show ?thesis by (simp add: domIff)
    qed
  qed
  then show ?thesis by (simp add: dom_map_of_conv_image_fst)
qed

lemma newCatalogBuilderMap_distinct:
  assumes "newCatalogBuilderMap d t cats ot = Inr m"
  shows "distinct (map fst m)"
proof -
  from newCatalogBuilderMap_Inr[OF assms] obtain st' where
    loop: "catalogsLoop t ot cats \<lparr>catalogBuilderMap = [], setupFailed = False, setupErrors = []\<rparr> = Inr st'"
    and m: "m = catalogBuilderMap st'" by blast
  from catalogsLoop_distinct[OF loop] m show ?thesis by simp
qed

lemma newCatalogBuilderMap_builder:
  assumes "newCatalogBuilderMap d t cats ot = Inr m"
    and "map_of m n = Some bm" and "map_of bm s = Some b"
  shows "builderForSchema t s \<lparr>OutputType = ot\<rparr> = Inr b"
proof -
  from newCatalogBuilderMap_lookup(1)[OF assms(1), of n] assms(2)
  obtain c :: Catalog where "schemasLoop t ot n (Builders c) [] = Inr bm"
    by (auto split: option.splits sum.splits)
  from schemasLoop_builderForSchema[OF this assms(3)] show ?thesis by simp
qed

lemma find_first:
  "\<forall>p\<in>set pre. \<not> P p \<Longrightarrow> P c \<Longrightarrow> find P (pre @ c # post) = Some c"
  by (induction pre) simp_all

lemmas stub_defs = stubExternals_def stubTemplate_def mkCatalog_def
  mkComponent_def mkCatalogConfig_def mkCompositeConfig_def noCalls_def stubBuild_def
  stubValidate_def

lemmas run_defs = newCatalogBuilderMap_def builderForSchema_def validateCatalog_def
  buildErrMsg_def catalogErrors_def newline_def Render_def parseCatalogsSpec_def
  parseContributionSpec_def callBuild_def callValidate_def

section \<open>Claims about the catalog-builder matrix\<close>

text \<open>
  C1 (as amended). When at least one catalog of the input has an empty
  \<open>destination.workingDir\<close>, \<open>newCatalogBuilderMap\<close> fails, and it fails in one of two
  ways: with the aggregated field-validation error, or with the unknown-schema error of a
  catalog that passed field validation and declares a builder schema that is not
  registered. Builders are resolved catalog by catalog in the same pass as the
  validation, not after it. The error is the aggregated one whenever every schema
  declared by the catalogs that pass validation is registered.
\<close>

theorem newCatalogBuilderMap_invalid_catalog:
  assumes "\<exists>c\<in>set catalogs. WorkingDir (Catalog.Destination c) = []"
  shows "((\<exists>errMsg. newCatalogBuilderMap d t catalogs ot = Inl (FieldValidationFailed errMsg)) \<or>
          (\<exists>c\<in>set catalogs. \<exists>schema\<in>set (Builders c).
              WorkingDir (Catalog.Destination c) \<noteq> [] \<and> registeredBuilders t schema = None \<and>
              newCatalogBuilderMap d t catalogs ot
                = Inl (GettingBuilder schema (Catalog.Name c) (UnknownSchema schema)))) \<and>
         ((\<forall>c\<in>set catalogs. WorkingDir (Catalog.Destination c) \<noteq> [] \<longrightarrow>
              set (Builders c) \<subseteq> dom (registeredBuilders t)) \<longrightarrow>
          (\<exists>errMsg. newCatalogBuilderMap d t catalogs ot = Inl (FieldValidationFailed errMsg)))"
proof -
  have either: "(\<exists>errMsg. newCatalogBuilderMap d t catalogs ot = Inl (FieldValidationFailed errMsg)) \<or>
          (\<exists>c\<in>set catalogs. \<exists>schema\<in>set (Builders c).
              WorkingDir (Catalog.Destination c) \<noteq> [] \<and> registeredBuilders t schema = None \<and>
              newCatalogBuilderMap d t catalogs ot
                = Inl (GettingBuilder schema (Catalog.Name c) (UnknownSchema schema)))"
  proof (cases "catalogsLoop t ot catalogs
                  \<lparr>catalogBuilderMap = [], setupFailed = False, setupErrors = []\<rparr>")
    case (Inl e)
    from catalogsLoop_Inl[OF Inl] Inl show ?thesis
      by (auto simp: newCatalogBuilderMap_def)
  next
    case (Inr st')
    from catalogsLoop_failed[OF Inr] assms have "setupFailed st'" by simp
    with Inr show ?thesis by (simp add: newCatalogBuilderMap_def)
  qed
  moreover have "\<exists>errMsg. newCatalogBuilderMap d t catalogs ot = Inl (FieldValidationFailed errMsg)"
    if "\<forall>c\<in>set catalogs. WorkingDir (Catalog.Destination c) \<noteq> [] \<longrightarrow>
              set (Builders c) \<subseteq> dom (registeredBuilders t)"
    using either that by (fastforce simp: subset_iff)
  ultimately show ?thesis by blast
qed

text \<open>
  A run of the theorem: the second catalog has no working directory (and an unknown
  schema, which is never looked at), the first is valid with a registered schema.
\<close>

theorem newCatalogBuilderMap_invalid_catalog_witness:
  "\<exists>errMsg. newCatalogBuilderMap (stubExternals (mkCatalogConfig []) (mkCompositeConfig []) [])
       stubTemplate [mkCatalog ''b'' ''/x'' [''olm.builder.raw''], mkCatalog ''a'' [] [''bogus'']] ''json''
     = Inl (FieldValidationFailed errMsg)"
  using newCatalogBuilderMap_invalid_catalog
    [where catalogs = "[mkCatalog ''b'' ''/x'' [''olm.builder.raw''], mkCatalog ''a'' [] [''bogus'']]"
       and t = stubTemplate and ot = "''json''"
       and d = "stubExternals (mkCatalogConfig []) (mkCompositeConfig []) []"]
  by (simp add: mkCatalog_def stubTemplate_def)

text \<open>
  C1 as first stated does not hold: catalog \<open>a\<close> has an empty working directory, and
  yet the result is the unknown-schema error of the valid catalog \<open>b\<close>, whose
  builders are resolved inside the same loop.
\<close>

theorem unknown_schema_preempts_validation_counterexample:
  "WorkingDir (Catalog.Destination (mkCatalog ''a'' [] [])) = [] \<and>
   newCatalogBuilderMap (stubExternals (mkCatalogConfig []) (mkCompositeConfig []) [])
       stubTemplate [mkCatalog ''a'' [] [], mkCatalog ''b'' ''/x'' [''bogus'']] ''json''
     = Inl (GettingBuilder ''bogus'' ''b'' (UnknownSchema ''bogus''))"
  by (simp add: stub_defs run_defs)

text \<open>
  C2 (as amended). For every catalog sequence with one or more catalogs whose
  \<open>destination.workingDir\<close> is empty, \<open>newCatalogBuilderMap\<close> fails. Unless it fails
  with the unknown-schema error of a catalog that passed validation and declares an
  unregistered schema, the error is the aggregated validation error, and its message
  holds, for every catalog with an empty working directory, the line naming the catalog
  followed by the line of the field error: every such catalog, never only the first.
\<close>

theorem newCatalogBuilderMap_names_every_invalid_catalog:
  assumes "\<exists>c\<in>set catalogs. WorkingDir (Catalog.Destination c) = []"
  shows "(\<exists>c\<in>set catalogs. \<exists>schema\<in>set (Builders c).
            WorkingDir (Catalog.Destination c) \<noteq> [] \<and> registeredBuilders t schema = None \<and>
            newCatalogBuilderMap d t catalogs ot
              = Inl (GettingBuilder schema (Catalog.Name c) (UnknownSchema schema))) \<or>
         (\<exists>errMsg. newCatalogBuilderMap d t catalogs ot = Inl (FieldValidationFailed errMsg) \<and>
            (\<forall>c\<in>set catalogs. WorkingDir (Catalog.Destination c) = [] \<longrightarrow>
               sublist (newline @ ''Catalog '' @ Catalog.Name c @ '':'' @ newline
                          @ ''  - destination.workingDir must not be an empty string'' @ newline)
                       errMsg))"
proof (cases "catalogsLoop t ot catalogs
                \<lparr>catalogBuilderMap = [], setupFailed = False, setupErrors = []\<rparr>")
  case (Inl e)
  from catalogsLoop_Inl[OF Inl] Inl show ?thesis
    by (auto simp: newCatalogBuilderMap_def)
next
  case (Inr st')
  from catalogsLoop_failed[OF Inr] assms have "setupFailed st'" by simp
  with Inr have res: "newCatalogBuilderMap d t catalogs ot
      = Inl (FieldValidationFailed (buildErrMsg (rangePicks d) (setupErrors st')))"
    by (simp add: newCatalogBuilderMap_def)
  have "sublist (newline @ ''Catalog '' @ Catalog.Name c @ '':'' @ newline
                   @ ''  - destination.workingDir must not be an empty string'' @ newline)
                (buildErrMsg (rangePicks d) (setupErrors st'))"
    if "c \<in> set catalogs" and "WorkingDir (Catalog.Destination c) = []" for c
  proof -
    from catalogsLoop_errors[OF Inr, of "Catalog.Name c"] that
    have "map_of (setupErrors st') (Catalog.Name c)
            = Some [''destination.workingDir must not be an empty string'']" by auto
    from buildErrMsg_names[OF this, of "rangePicks d"] show ?thesis by simp
  qed
  with res show ?thesis by blast
qed

text \<open>
  A run of the theorem with two offending catalogs, \<open>a\<close> and \<open>c\<close>, around a valid
  one; the map of errors is ranged over starting from its second entry.
\<close>

theorem newCatalogBuilderMap_names_every_invalid_catalog_witness:
  "\<exists>errMsg. newCatalogBuilderMap (stubExternals (mkCatalogConfig []) (mkCompositeConfig []) [1])
       stubTemplate
       [mkCatalog ''a'' [] [], mkCatalog ''b'' ''/x'' [''olm.builder.raw''], mkCatalog ''c'' [] [''bogus'']]
       ''json''
     = Inl (FieldValidationFailed errMsg) \<and>
     sublist (newline @ ''Catalog a:'' @ newline
                @ ''  - destination.workingDir must not be an empty string'' @ newline) errMsg \<and>
     sublist (newline @ ''Catalog c:'' @ newline
                @ ''  - destination.workingDir must not be an empty string'' @ newline) errMsg"
  using newCatalogBuilderMap_names_every_invalid_catalog
    [where catalogs = "[mkCatalog ''a'' [] [], mkCatalog ''b'' ''/x'' [''olm.builder.raw''],
                        mkCatalog ''c'' [] [''bogus'']]"
       and t = stubTemplate and ot = "''json''"
       and d = "stubExternals (mkCatalogConfig []) (mkCompositeConfig []) [1]"]
  by (simp add: mkCatalog_def stubTemplate_def)

text \<open>
  C2 as first stated does not hold: catalog \<open>c\<close> has an empty working directory, but
  the error returned names neither it nor any field; it is the unknown-schema error met
  while the builders of the valid catalog \<open>b\<close> were resolved.
\<close>

theorem validation_message_preempted_counterexample:
  "WorkingDir (Catalog.Destination (mkCatalog ''c'' [] [])) = [] \<and>
   newCatalogBuilderMap (stubExternals (mkCatalogConfig []) (mkCompositeConfig []) [])
       stubTemplate
       [mkCatalog ''b'' ''/x'' [''olm.builder.basic'', ''olm.builder.veneer''], mkCatalog ''c'' [] []]
       ''json''
     = Inl (GettingBuilder ''olm.builder.veneer'' ''b'' (UnknownSchema ''olm.builder.veneer''))"
  by (simp add: stub_defs run_defs)

text \<open>
  C5. When a catalog name occurs more than once in the input, the entry of the assembled
  map for that name is the builder map made from the first occurrence: if \<open>c\<close> is the
  first catalog of the sequence with its name, the map holds under that name exactly the
  builders of the schemas \<open>c\<close> declares, whatever later catalogs of the same name
  declare.
\<close>

theorem first_occurrence_wins:
  assumes "newCatalogBuilderMap d t catalogs ot = Inr m"
    and "catalogs = pre @ c # post"
    and "\<forall>p\<in>set pre. Catalog.Name p \<noteq> Catalog.Name c"
  shows "\<exists>builderMap. map_of m (Catalog.Name c) = Some builderMap \<and>
           schemasLoop t ot (Catalog.Name c) (Builders c) [] = Inr builderMap \<and>
           (\<forall>schema. map_of builderMap schema =
              (if schema \<in> set (Builders c)
               then map_option (\<lambda>builderFunc. builderFunc \<lparr>OutputType = ot\<rparr>)
                      (registeredBuilders t schema)
               else None))"
proof -
  have "find (\<lambda>x. Catalog.Name x = Catalog.Name c) catalogs = Some c"
    unfolding assms(2) using assms(3) by (intro find_first) simp_all
  from newCatalogBuilderMap_lookup(2)[OF assms(1) this] obtain bm where
    bm: "schemasLoop t ot (Catalog.Name c) (Builders c) [] = Inr bm"
    and m: "map_of m (Catalog.Name c) = Some bm" by blast
  from schemasLoop_map_of[OF bm] bm m show ?thesis by simp
qed

text \<open>
  A run of the theorem: catalog \<open>a\<close> is declared twice, first with the basic builder
  and then with the raw one; the map keeps the basic builder.
\<close>

theorem first_occurrence_wins_witness:
  "map_of (projr (newCatalogBuilderMap (stubExternals (mkCatalogConfig []) (mkCompositeConfig []) [])
       stubTemplate
       [mkCatalog ''b'' ''/b'' [''olm.builder.raw''], mkCatalog ''a'' ''/a'' [''olm.builder.basic''],
        mkCatalog ''a'' ''/c'' [''olm.builder.raw'']] ''json'')) ''a''
     = Some [(''olm.builder.basic'', (''basic'', ''json''))]"
  using first_occurrence_wins
    [where d = "stubExternals (mkCatalogConfig []) (mkCompositeConfig []) []" and t = stubTemplate
       and catalogs = "[mkCatalog ''b'' ''/b'' [''olm.builder.raw''],
                        mkCatalog ''a'' ''/a'' [''olm.builder.basic''],
                        mkCatalog ''a'' ''/c'' [''olm.builder.raw'']]"
       and ot = "''json''"
       and m = "projr (newCatalogBuilderMap
                  (stubExternals (mkCatalogConfig []) (mkCompositeConfig []) []) stubTemplate
                  [mkCatalog ''b'' ''/b'' [''olm.builder.raw''],
                   mkCatalog ''a'' ''/a'' [''olm.builder.basic''],
                   mkCatalog ''a'' ''/c'' [''olm.builder.raw'']] ''json'')"
       and pre = "[mkCatalog ''b'' ''/b'' [''olm.builder.raw'']]"
       and c = "mkCatalog ''a'' ''/a'' [''olm.builder.basic'']"
       and post = "[mkCatalog ''a'' ''/c'' [''olm.builder.raw'']]"]
  by (simp add: stub_defs run_defs)

section \<open>Facts about the loop over the components\<close>

lemma callBuild_calls:
  "callBuild d b ctx reg p tm s = (r, s') \<Longrightarrow>
     calls s' = calls s @ [BuildCall b ctx reg p tm] \<and> Build d b ctx reg p tm (world s) = (r, world s')"
  by (auto simp: callBuild_def split: prod.splits)

lemma callValidate_calls:
  "callValidate d b ctx p s = (r, s') \<Longrightarrow>
     calls s' = calls s @ [ValidateCall b ctx p] \<and> Validate d b ctx p (world s) = (r, world s')"
  by (auto simp: callValidate_def split: prod.splits)

lemma renderComponents_append:
  "renderComponents d t m ctx v (pre @ post) s =
     (case renderComponents d t m ctx v pre s of
        (None, s1) \<Rightarrow> renderComponents d t m ctx v post s1
      | (Some e, s1) \<Rightarrow> (Some e, s1))"
  by (induction pre arbitrary: s) (auto split: option.splits prod.splits)

lemma componentCalls_builder:
  assumes "builderForSchema t (TemplateDefinition.Schema (Template (Strategy k)))
             \<lparr>OutputType = outputType t\<rparr> = Inr b"
  shows "componentCalls t ctx v k =
           BuildCall b ctx (registry t) (Path (Component.Destination k)) (Template (Strategy k))
             # (if v then [ValidateCall b ctx (Path (Component.Destination k))] else [])"
  using assms by (auto simp: componentCalls_def builderForSchema_def split: option.splits)

lemma renderComponents_calls:
  assumes m: "newCatalogBuilderMap d t cats (outputType t) = Inr m"
  shows "renderComponents d t m ctx v ks s = (None, s1) \<Longrightarrow>
           calls s1 = calls s @ concat (map (componentCalls t ctx v) ks)"
proof (induction ks arbitrary: s)
  case Nil
  then show ?case by simp
next
  case (Cons k ks)
  from Cons.prems obtain bm b where
    bm: "map_of m (Component.Name k) = Some bm" and
    b: "map_of bm (TemplateDefinition.Schema (Template (Strategy k))) = Some b"
    by (auto split: option.splits)
  from newCatalogBuilderMap_builder[OF m bm b]
  have cc: "componentCalls t ctx v k =
           BuildCall b ctx (registry t) (Path (Component.Destination k)) (Template (Strategy k))
             # (if v then [ValidateCall b ctx (Path (Component.Destination k))] else [])"
    by (rule componentCalls_builder)
  from Cons.prems bm b obtain sb where
    sb: "callBuild d b ctx (registry t) (Path (Component.Destination k)) (Template (Strategy k)) s
           = (None, sb)"
    by (auto split: option.splits prod.splits)
  note sbc = callBuild_calls[OF sb]
  show ?case
  proof (cases v)
    case False
    with Cons.prems bm b sb have "renderComponents d t m ctx v ks sb = (None, s1)" by simp
    from Cons.IH[OF this] sbc cc False show ?thesis by simp
  next
    case True
    with Cons.prems bm b sb obtain sv where
      sv: "callValidate d b ctx (Path (Component.Destination k)) sb = (None, sv)" and
      rest: "renderComponents d t m ctx v ks sv = (None, s1)"
      by (auto split: option.splits prod.splits)
    from Cons.IH[OF rest] sbc callValidate_calls[OF sv] cc True show ?thesis by simp
  qed
qed

lemma Render_components:
  assumes "parseCatalogsSpec d t = Inr cc" and "parseContributionSpec d t = Inr co"
    and "newCatalogBuilderMap d t (Catalogs cc) (outputType t) = Inr m"
  shows "Render d t ctx v s = renderComponents d t m ctx v (Components co) s"
  using assms by (simp add: Render_def)

lemma renderComponents_reach:
  assumes "renderComponents d t m ctx v pre s = (None, s1)"
  shows "renderComponents d t m ctx v (pre @ k # post) s = renderComponents d t m ctx v (k # post) s1"
  using assms by (simp add: renderComponents_append)

lemma schemasLoop_registered:
  "schemasLoop t ot n schemas bm = Inr bm' \<Longrightarrow> set schemas \<subseteq> dom (registeredBuilders t)"
  by (induction schemas arbitrary: bm)
     (auto simp: builderForSchema_def split: option.splits sum.splits)

lemma newCatalogBuilderMap_succeeds:
  assumes "\<forall>c\<in>set cats. WorkingDir (Catalog.Destination c) \<noteq> []"
    and "\<forall>c\<in>set cats. set (Builders c) \<subseteq> dom (registeredBuilders t)"
  shows "\<exists>m. newCatalogBuilderMap d t cats ot = Inr m"
proof -
  from assms(2) have "\<forall>c\<in>set cats. WorkingDir (Catalog.Destination c) \<noteq> [] \<longrightarrow>
       set (Builders c) \<subseteq> dom (registeredBuilders t)" by simp
  from catalogsLoop_Inr[OF this] obtain st' where
    st': "catalogsLoop t ot cats \<lparr>catalogBuilderMap = [], setupFailed = False, setupErrors = []\<rparr>
            = Inr st'" by blast
  from catalogsLoop_failed[OF st'] assms(1) have "\<not> setupFailed st'" by simp
  with st' show ?thesis by (simp add: newCatalogBuilderMap_def)
qed

lemma newCatalogBuilderMap_resolves:
  assumes m: "newCatalogBuilderMap d t cats ot = Inr m"
    and c: "find (\<lambda>c. Catalog.Name c = n) cats = Some c"
  shows "\<exists>bm. map_of m n = Some bm \<and>
           (\<forall>s. (s \<in> set (Builders c) \<longrightarrow> (\<exists>b. map_of bm s = Some b)) \<and>
                (s \<notin> set (Builders c) \<longrightarrow> map_of bm s = None))"
proof -
  from newCatalogBuilderMap_lookup(2)[OF m c] obtain bm where
    bm: "schemasLoop t ot n (Builders c) [] = Inr bm" and mn: "map_of m n = Some bm" by blast
  from schemasLoop_registered[OF bm] schemasLoop_map_of[OF bm] mn show ?thesis
    by (auto simp: subset_iff)
qed

lemma joinSpace_names: "n \<in> set xs \<Longrightarrow> sublist n (joinSpace xs)"
proof (induction xs rule: joinSpace.induct)
  case 1
  then show ?case by simp
next
  case (2 x)
  then show ?case by simp
next
  case (3 x y ys)
  show ?case
  proof (cases "n = x")
    case True
    then show ?thesis by simp
  next
    case False
    with 3 have "sublist n (joinSpace (y # ys))" by simp
    then obtain ps ss where "joinSpace (y # ys) = ps @ n @ ss" unfolding sublist_def by blast
    then have "joinSpace (x # y # ys) = (x @ '' '' @ ps) @ n @ ss" by simp
    then show ?thesis unfolding sublist_def by blast
  qed
qed

lemma ComponentNotInCatalog_names:
  assumes "n \<in> set allowed"
  shows "sublist n (Error quote (ComponentNotInCatalog name allowed))"
proof -
  from joinSpace_names[OF assms] obtain ps ss where "joinSpace allowed = ps @ n @ ss"
    unfolding sublist_def by blast
  then have "Error quote (ComponentNotInCatalog name allowed) =
      (''building component '' @ quote name
         @ '': component does not exist in the catalog configuration. Available components are: ''
         @ ''['' @ ps) @ n @ (ss @ '']'')" by simp
  then show ?thesis unfolding sublist_def by blast
qed

lemma renderComponents_exec:
  assumes m: "newCatalogBuilderMap d t cats (outputType t) = Inr m"
  shows "\<forall>k\<in>set ks. \<exists>bm b. map_of m (Component.Name k) = Some bm \<and>
           map_of bm (TemplateDefinition.Schema (Template (Strategy k))) = Some b \<Longrightarrow>
         (fst (renderComponents d t m ctx v ks s) = None) =
         (\<forall>r\<in>set (execCalls d (concat (map (componentCalls t ctx v) ks)) (world s)). r = None)"
proof (induction ks arbitrary: s)
  case Nil
  then show ?case by simp
next
  case (Cons k ks)
  from Cons.prems obtain bm b where
    bm: "map_of m (Component.Name k) = Some bm" and
    b: "map_of bm (TemplateDefinition.Schema (Template (Strategy k))) = Some b"
    by auto
  from Cons.prems have rest: "\<forall>k\<in>set ks. \<exists>bm b. map_of m (Component.Name k) = Some bm \<and>
       map_of bm (TemplateDefinition.Schema (Template (Strategy k))) = Some b" by simp
  note cc = componentCalls_builder[OF newCatalogBuilderMap_builder[OF m bm b], of ctx v]
  obtain rb wb where rb: "Build d b ctx (registry t) (Path (Component.Destination k))
      (Template (Strategy k)) (world s) = (rb, wb)" by (meson surj_pair)
  obtain rv wv where rv: "Validate d b ctx (Path (Component.Destination k)) wb = (rv, wv)"
    by (meson surj_pair)
  define sb where "sb = \<lparr>world = wb, calls = calls s @ [BuildCall b ctx (registry t)
      (Path (Component.Destination k)) (Template (Strategy k))]\<rparr>"
  define sv where "sv = \<lparr>world = wv,
      calls = calls sb @ [ValidateCall b ctx (Path (Component.Destination k))]\<rparr>"
  have cb: "callBuild d b ctx (registry t) (Path (Component.Destination k))
      (Template (Strategy k)) s = (rb, sb)"
    using rb by (simp add: callBuild_def sb_def)
  have cv: "callValidate d b ctx (Path (Component.Destination k)) sb = (rv, sv)"
    using rv by (simp add: callValidate_def sb_def sv_def)
  show ?case
  proof (cases rb)
    case (Some err)
    with bm b cb rb cc show ?thesis by simp
  next
    case None
    note built = this
    show ?thesis
    proof (cases v)
      case False
      with bm b cb rb cc built Cons.IH[OF rest, of sb] show ?thesis
        by (simp add: sb_def)
    next
      case True
      show ?thesis
      proof (cases rv)
        case (Some err)
        with bm b cb cv rb rv cc built True show ?thesis by (simp add: sb_def)
      next
        case None
        with bm b cb cv rb rv cc built True Cons.IH[OF rest, of sv] show ?thesis
          by (simp add: sb_def sv_def)
      qed
    qed
  qed
qed

lemma renderComponents_failure:
  "\<forall>k\<in>set ks. \<exists>bm b. map_of m (Component.Name k) = Some bm \<and>
       map_of bm (TemplateDefinition.Schema (Template (Strategy k))) = Some b \<Longrightarrow>
   renderComponents d t m ctx v ks s = (Some e, s') \<Longrightarrow>
   \<exists>pre k post s1 bm b err.
     ks = pre @ k # post \<and>
     renderComponents d t m ctx v pre s = (None, s1) \<and>
     map_of m (Component.Name k) = Some bm \<and>
     map_of bm (TemplateDefinition.Schema (Template (Strategy k))) = Some b \<and>
     ((\<exists>w. Build d b ctx (registry t) (Path (Component.Destination k))
              (Template (Strategy k)) (world s1) = (Some err, w) \<and>
           e = BuildingComponent (Component.Name k) err \<and>
           s' = \<lparr>world = w,
                  calls = calls s1 @ [BuildCall b ctx (registry t)
                            (Path (Component.Destination k)) (Template (Strategy k))]\<rparr>) \<or>
      (v \<and> (\<exists>w1 w2. Build d b ctx (registry t) (Path (Component.Destination k))
                       (Template (Strategy k)) (world s1) = (None, w1) \<and>
                 Validate d b ctx (Path (Component.Destination k)) w1 = (Some err, w2) \<and>
                 e = ValidatingComponent (Component.Name k) err \<and>
                 s' = \<lparr>world = w2,
                        calls = calls s1 @ [BuildCall b ctx (registry t)
                                  (Path (Component.Destination k)) (Template (Strategy k)),
                                ValidateCall b ctx (Path (Component.Destination k))]\<rparr>)))"
proof (induction ks arbitrary: s)
  case Nil
  then show ?case by simp
next
  case (Cons k ks)
  from Cons.prems(1) obtain bm b where
    bm: "map_of m (Component.Name k) = Some bm" and
    b: "map_of bm (TemplateDefinition.Schema (Template (Strategy k))) = Some b"
    by auto
  from Cons.prems(1) have rest: "\<forall>k\<in>set ks. \<exists>bm b. map_of m (Component.Name k) = Some bm \<and>
       map_of bm (TemplateDefinition.Schema (Template (Strategy k))) = Some b" by simp
  obtain rb wb where rb: "Build d b ctx (registry t) (Path (Component.Destination k))
      (Template (Strategy k)) (world s) = (rb, wb)" by (meson surj_pair)
  obtain rv wv where rv: "Validate d b ctx (Path (Component.Destination k)) wb = (rv, wv)"
    by (meson surj_pair)
  define sb where "sb = \<lparr>world = wb, calls = calls s @ [BuildCall b ctx (registry t)
      (Path (Component.Destination k)) (Template (Strategy k))]\<rparr>"
  define sv where "sv = \<lparr>world = wv,
      calls = calls sb @ [ValidateCall b ctx (Path (Component.Destination k))]\<rparr>"
  have cb: "callBuild d b ctx (registry t) (Path (Component.Destination k))
      (Template (Strategy k)) s = (rb, sb)"
    using rb by (simp add: callBuild_def sb_def)
  have cv: "callValidate d b ctx (Path (Component.Destination k)) sb = (rv, sv)"
    using rv by (simp add: callValidate_def sb_def sv_def)
  have here: ?case
    if "(\<exists>w. Build d b ctx (registry t) (Path (Component.Destination k))
              (Template (Strategy k)) (world s) = (Some err, w) \<and>
           e = BuildingComponent (Component.Name k) err \<and>
           s' = \<lparr>world = w,
                  calls = calls s @ [BuildCall b ctx (registry t)
                            (Path (Component.Destination k)) (Template (Strategy k))]\<rparr>) \<or>
      (v \<and> (\<exists>w1 w2. Build d b ctx (registry t) (Path (Component.Destination k))
                       (Template (Strategy k)) (world s) = (None, w1) \<and>
                 Validate d b ctx (Path (Component.Destination k)) w1 = (Some err, w2) \<and>
                 e = ValidatingComponent (Component.Name k) err \<and>
                 s' = \<lparr>world = w2,
                        calls = calls s @ [BuildCall b ctx (registry t)
                                  (Path (Component.Destination k)) (Template (Strategy k)),
                                ValidateCall b ctx (Path (Component.Destination k))]\<rparr>))" for err
    apply (rule exI[of _ "[]"])
    apply (rule exI[of _ k])
    apply (rule exI[of _ ks])
    apply (rule exI[of _ s])
    apply (rule exI[of _ bm])
    apply (rule exI[of _ b])
    apply (rule exI[of _ err])
    using that bm b by simp
  have later: ?case if run: "renderComponents d t m ctx v ks s2 = (Some e, s')"
    and reach: "renderComponents d t m ctx v [k] s = (None, s2)" for s2
  proof -
    from Cons.IH[OF rest run] obtain pre k' post s1 bm' b' err where
      ks: "ks = pre @ k' # post" and
      pre: "renderComponents d t m ctx v pre s2 = (None, s1)" and
      more: "map_of m (Component.Name k') = Some bm'"
        "map_of bm' (TemplateDefinition.Schema (Template (Strategy k'))) = Some b'"
        "(\<exists>w. Build d b' ctx (registry t) (Path (Component.Destination k'))
              (Template (Strategy k')) (world s1) = (Some err, w) \<and>
           e = BuildingComponent (Component.Name k') err \<and>
           s' = \<lparr>world = w,
                  calls = calls s1 @ [BuildCall b' ctx (registry t)
                            (Path (Component.Destination k')) (Template (Strategy k'))]\<rparr>) \<or>
         (v \<and> (\<exists>w1 w2. Build d b' ctx (registry t) (Path (Component.Destination k'))
                       (Template (Strategy k')) (world s1) = (None, w1) \<and>
                 Validate d b' ctx (Path (Component.Destination k')) w1 = (Some err, w2) \<and>
                 e = ValidatingComponent (Component.Name k') err \<and>
                 s' = \<lparr>world = w2,
                        calls = calls s1 @ [BuildCall b' ctx (registry t)
                                  (Path (Component.Destination k')) (Template (Strategy k')),
                                ValidateCall b' ctx (Path (Component.Destination k'))]\<rparr>))"
      by blast
    have "renderComponents d t m ctx v (k # pre) s = (None, s1)"
      using renderComponents_append[of d t m ctx v "[k]" pre s] reach pre by simp
    moreover have "k # ks = (k # pre) @ k' # post" using ks by simp
    ultimately show ?thesis using more
      apply -
      apply (rule exI[of _ "k # pre"])
      apply (rule exI[of _ k'])
      apply (rule exI[of _ post])
      apply (rule exI[of _ s1])
      apply (rule exI[of _ bm'])
      apply (rule exI[of _ b'])
      apply (rule exI[of _ err])
      by blast
  qed
  show ?case
  proof (cases rb)
    case (Some err)
    with Cons.prems(2) bm b cb rb have "e = BuildingComponent (Component.Name k) err" "s' = sb"
      by simp_all
    with rb Some show ?thesis by (intro here[of err]) (simp add: sb_def)
  next
    case None
    note built = this
    show ?thesis
    proof (cases v)
      case False
      with Cons.prems(2) bm b cb built have "renderComponents d t m ctx v ks sb = (Some e, s')"
        by simp
      moreover from False bm b cb built have "renderComponents d t m ctx v [k] s = (None, sb)"
        by simp
      ultimately show ?thesis by (rule later)
    next
      case True
      show ?thesis
      proof (cases rv)
        case (Some err)
        with Cons.prems(2) bm b cb cv built True
        have "e = ValidatingComponent (Component.Name k) err" "s' = sv" by simp_all
        with rb rv built Some True show ?thesis
          by (intro here[of err]) (simp add: sb_def sv_def)
      next
        case None
        with Cons.prems(2) bm b cb cv built True
        have "renderComponents d t m ctx v ks sv = (Some e, s')" by simp
        moreover from None True bm b cb cv built
        have "renderComponents d t m ctx v [k] s = (None, sv)" by simp
        ultimately show ?thesis by (rule later)
      qed
    qed
  qed
qed

lemma schemasLoop_validate:
  "schemasLoop (t\<lparr>validate := x\<rparr>) ot n schemas bm = schemasLoop t ot n schemas bm"
  by (induction schemas arbitrary: bm)
     (simp_all add: builderForSchema_def cong: sum.case_cong split: option.splits)

lemma catalogsLoop_validate:
  "catalogsLoop (t\<lparr>validate := x\<rparr>) ot cats st = catalogsLoop t ot cats st"
  by (induction cats arbitrary: st)
     (simp_all add: schemasLoop_validate Let_def cong: sum.case_cong)

lemma renderComponents_validate:
  "renderComponents d (t\<lparr>validate := x\<rparr>) m ctx v ks s = renderComponents d t m ctx v ks s"
  by (induction ks arbitrary: s) (auto split: option.splits prod.splits)

lemma parseCatalogsSpec_validate:
  "parseCatalogsSpec d (t\<lparr>validate := x\<rparr>) = parseCatalogsSpec d t"
  by (simp add: parseCatalogsSpec_def)

lemma parseContributionSpec_validate:
  "parseContributionSpec d (t\<lparr>validate := x\<rparr>) = parseContributionSpec d t"
  by (simp add: parseContributionSpec_def)

lemma newCatalogBuilderMap_validate:
  "newCatalogBuilderMap d (t\<lparr>validate := x\<rparr>) cats ot = newCatalogBuilderMap d t cats ot"
  by (simp add: newCatalogBuilderMap_def catalogsLoop_validate)

lemma Render_validate_field:
  "Render d (t\<lparr>validate := x\<rparr>) ctx v s = Render d t ctx v s"
  by (simp add: Render_def parseCatalogsSpec_validate parseContributionSpec_validate
        newCatalogBuilderMap_validate renderComponents_validate cong: sum.case_cong)

section \<open>Claims about Render\<close>

text \<open>
  C3 (as amended). Take a Catalog and a Composite document that parse and carry the
  expected schemas, in which every catalog has a working directory and declares
  registered builder schemas only, and every component names a catalog of the document
  (the first of that name) and a schema that catalog declares. Then one of two things
  happens. Either \<open>Render\<close> returns success, having invoked \<open>Build\<close> exactly once per
  component in the order of the document and, when validation is requested,
  \<open>Validate\<close> exactly once per component, each right after that component's \<open>Build\<close>,
  and every one of these calls returned no error. Or there is a component \<open>k\<close>, reached
  after the components \<open>pre\<close> before it were processed without error, such that the
  \<open>Build\<close> call made for \<open>k\<close> returned an error, or validation is requested, that
  \<open>Build\<close> succeeded and the \<open>Validate\<close> call made for \<open>k\<close> returned an error; then
  \<open>Render\<close> returns exactly that error wrapped with the name of \<open>k\<close>, and the calls
  made are those of \<open>pre\<close> followed by the failed call (after the \<open>Build\<close> of \<open>k\<close>
  when it is the \<open>Validate\<close>). Whenever none of the calls of the run returns an error,
  \<open>Render\<close> returns success.
\<close>

theorem Render_builds_every_component:
  assumes "parseCatalogsSpec d t = Inr catalogConfig"
    and "parseContributionSpec d t = Inr compositeConfig"
    and "\<forall>c\<in>set (Catalogs catalogConfig). WorkingDir (Catalog.Destination c) \<noteq> []"
    and "\<forall>c\<in>set (Catalogs catalogConfig). set (Builders c) \<subseteq> dom (registeredBuilders t)"
    and "\<forall>k\<in>set (Components compositeConfig).
           \<exists>c. find (\<lambda>c. Catalog.Name c = Component.Name k) (Catalogs catalogConfig) = Some c \<and>
               TemplateDefinition.Schema (Template (Strategy k)) \<in> set (Builders c)"
  shows "((fst (Render d t ctx v s) = None \<and>
           calls (snd (Render d t ctx v s))
             = calls s @ concat (map (componentCalls t ctx v) (Components compositeConfig)) \<and>
           (\<forall>r\<in>set (execCalls d
                        (concat (map (componentCalls t ctx v) (Components compositeConfig)))
                        (world s)). r = None)) \<or>
          (\<exists>m pre k post s1 builder err.
             newCatalogBuilderMap d t (Catalogs catalogConfig) (outputType t) = Inr m \<and>
             Components compositeConfig = pre @ k # post \<and>
             renderComponents d t m ctx v pre s = (None, s1) \<and>
             calls s1 = calls s @ concat (map (componentCalls t ctx v) pre) \<and>
             builderForSchema t (TemplateDefinition.Schema (Template (Strategy k)))
               \<lparr>OutputType = outputType t\<rparr> = Inr builder \<and>
             ((\<exists>w. Build d builder ctx (registry t) (Path (Component.Destination k))
                      (Template (Strategy k)) (world s1) = (Some err, w) \<and>
                   Render d t ctx v s =
                     (Some (BuildingComponent (Component.Name k) err),
                      \<lparr>world = w,
                         calls = calls s1 @ [BuildCall builder ctx (registry t)
                                   (Path (Component.Destination k))
                                   (Template (Strategy k))]\<rparr>)) \<or>
              (v \<and> (\<exists>w1 w2.
                   Build d builder ctx (registry t) (Path (Component.Destination k))
                     (Template (Strategy k)) (world s1) = (None, w1) \<and>
                   Validate d builder ctx (Path (Component.Destination k)) w1 = (Some err, w2) \<and>
                   Render d t ctx v s =
                     (Some (ValidatingComponent (Component.Name k) err),
                      \<lparr>world = w2,
                         calls = calls s1 @ [BuildCall builder ctx (registry t)
                                   (Path (Component.Destination k)) (Template (Strategy k)),
                                 ValidateCall builder ctx
                                   (Path (Component.Destination k))]\<rparr>)))))) \<and>
         ((\<forall>r\<in>set (execCalls d
                        (concat (map (componentCalls t ctx v) (Components compositeConfig)))
                        (world s)). r = None) \<longrightarrow>
            fst (Render d t ctx v s) = None) \<and>
         (\<forall>k\<in>set (Components compositeConfig). \<exists>builder.
            componentCalls t ctx v k =
              BuildCall builder ctx (registry t) (Path (Component.Destination k))
                  (Template (Strategy k))
                # (if v then [ValidateCall builder ctx (Path (Component.Destination k))] else []))"
proof -
  from newCatalogBuilderMap_succeeds[OF assms(3,4)] obtain m where
    m: "newCatalogBuilderMap d t (Catalogs catalogConfig) (outputType t) = Inr m" by blast
  have res: "\<exists>bm b. map_of m (Component.Name k) = Some bm \<and>
             map_of bm (TemplateDefinition.Schema (Template (Strategy k))) = Some b"
    if "k \<in> set (Components compositeConfig)" for k
  proof -
    from assms(5) that obtain c where
      c: "find (\<lambda>c. Catalog.Name c = Component.Name k) (Catalogs catalogConfig) = Some c" and
      s: "TemplateDefinition.Schema (Template (Strategy k)) \<in> set (Builders c)" by blast
    from newCatalogBuilderMap_resolves[OF m c] s show ?thesis by blast
  qed
  then have all: "\<forall>k\<in>set (Components compositeConfig). \<exists>bm b.
       map_of m (Component.Name k) = Some bm \<and>
       map_of bm (TemplateDefinition.Schema (Template (Strategy k))) = Some b" by blast
  note R = Render_components[OF assms(1,2) m, of ctx v s]
  note exec = renderComponents_exec[OF m all, where ctx = ctx and v = v and s = s]
  have one: "(fst (Render d t ctx v s) = None \<and>
           calls (snd (Render d t ctx v s))
             = calls s @ concat (map (componentCalls t ctx v) (Components compositeConfig)) \<and>
           (\<forall>r\<in>set (execCalls d
                        (concat (map (componentCalls t ctx v) (Components compositeConfig)))
                        (world s)). r = None)) \<or>
          (\<exists>m pre k post s1 builder err.
             newCatalogBuilderMap d t (Catalogs catalogConfig) (outputType t) = Inr m \<and>
             Components compositeConfig = pre @ k # post \<and>
             renderComponents d t m ctx v pre s = (None, s1) \<and>
             calls s1 = calls s @ concat (map (componentCalls t ctx v) pre) \<and>
             builderForSchema t (TemplateDefinition.Schema (Template (Strategy k)))
               \<lparr>OutputType = outputType t\<rparr> = Inr builder \<and>
             ((\<exists>w. Build d builder ctx (registry t) (Path (Component.Destination k))
                      (Template (Strategy k)) (world s1) = (Some err, w) \<and>
                   Render d t ctx v s =
                     (Some (BuildingComponent (Component.Name k) err),
                      \<lparr>world = w,
                         calls = calls s1 @ [BuildCall builder ctx (registry t)
                                   (Path (Component.Destination k))
                                   (Template (Strategy k))]\<rparr>)) \<or>
              (v \<and> (\<exists>w1 w2.
                   Build d builder ctx (registry t) (Path (Component.Destination k))
                     (Template (Strategy k)) (world s1) = (None, w1) \<and>
                   Validate d builder ctx (Path (Component.Destination k)) w1 = (Some err, w2) \<and>
                   Render d t ctx v s =
                     (Some (ValidatingComponent (Component.Name k) err),
                      \<lparr>world = w2,
                         calls = calls s1 @ [BuildCall builder ctx (registry t)
                                   (Path (Component.Destination k)) (Template (Strategy k)),
                                 ValidateCall builder ctx
                                   (Path (Component.Destination k))]\<rparr>)))))"
  proof (cases "fst (Render d t ctx v s)")
    case None
    then have "renderComponents d t m ctx v (Components compositeConfig) s
        = (None, snd (Render d t ctx v s))" using R by (metis prod.collapse)
    from renderComponents_calls[OF m this] None exec R show ?thesis by simp
  next
    case (Some e)
    then have run: "renderComponents d t m ctx v (Components compositeConfig) s
        = (Some e, snd (Render d t ctx v s))" using R by (metis prod.collapse)
    from renderComponents_failure[OF all run] obtain pre k post s1 bm b err where
      split: "Components compositeConfig = pre @ k # post" and
      pre: "renderComponents d t m ctx v pre s = (None, s1)" and
      bm: "map_of m (Component.Name k) = Some bm" and
      b: "map_of bm (TemplateDefinition.Schema (Template (Strategy k))) = Some b" and
      fail: "(\<exists>w. Build d b ctx (registry t) (Path (Component.Destination k))
              (Template (Strategy k)) (world s1) = (Some err, w) \<and>
           e = BuildingComponent (Component.Name k) err \<and>
           snd (Render d t ctx v s) = \<lparr>world = w,
                  calls = calls s1 @ [BuildCall b ctx (registry t)
                            (Path (Component.Destination k)) (Template (Strategy k))]\<rparr>) \<or>
         (v \<and> (\<exists>w1 w2. Build d b ctx (registry t) (Path (Component.Destination k))
                       (Template (Strategy k)) (world s1) = (None, w1) \<and>
                 Validate d b ctx (Path (Component.Destination k)) w1 = (Some err, w2) \<and>
                 e = ValidatingComponent (Component.Name k) err \<and>
                 snd (Render d t ctx v s) = \<lparr>world = w2,
                        calls = calls s1 @ [BuildCall b ctx (registry t)
                                  (Path (Component.Destination k)) (Template (Strategy k)),
                                ValidateCall b ctx (Path (Component.Destination k))]\<rparr>))"
      by blast
    have whole: "Render d t ctx v s = (Some e, snd (Render d t ctx v s))"
      using Some by (metis prod.collapse)
    have "(\<exists>w. Build d b ctx (registry t) (Path (Component.Destination k))
                      (Template (Strategy k)) (world s1) = (Some err, w) \<and>
                   Render d t ctx v s =
                     (Some (BuildingComponent (Component.Name k) err),
                      \<lparr>world = w,
                         calls = calls s1 @ [BuildCall b ctx (registry t)
                                   (Path (Component.Destination k))
                                   (Template (Strategy k))]\<rparr>)) \<or>
              (v \<and> (\<exists>w1 w2.
                   Build d b ctx (registry t) (Path (Component.Destination k))
                     (Template (Strategy k)) (world s1) = (None, w1) \<and>
                   Validate d b ctx (Path (Component.Destination k)) w1 = (Some err, w2) \<and>
                   Render d t ctx v s =
                     (Some (ValidatingComponent (Component.Name k) err),
                      \<lparr>world = w2,
                         calls = calls s1 @ [BuildCall b ctx (registry t)
                                   (Path (Component.Destination k)) (Template (Strategy k)),
                                 ValidateCall b ctx
                                   (Path (Component.Destination k))]\<rparr>)))"
      using fail whole by metis
    moreover note m split pre renderComponents_calls[OF m pre]
      newCatalogBuilderMap_builder[OF m bm b]
    ultimately show ?thesis by blast
  qed
  have two: "fst (Render d t ctx v s) = None"
    if "\<forall>r\<in>set (execCalls d
                        (concat (map (componentCalls t ctx v) (Components compositeConfig)))
                        (world s)). r = None"
    using that exec R by simp
  have shape: "\<exists>builder. componentCalls t ctx v k =
                BuildCall builder ctx (registry t) (Path (Component.Destination k))
                    (Template (Strategy k))
                  # (if v then [ValidateCall builder ctx (Path (Component.Destination k))] else [])"
    if "k \<in> set (Components compositeConfig)" for k
  proof -
    from res[OF that] obtain bm b where "map_of m (Component.Name k) = Some bm"
      "map_of bm (TemplateDefinition.Schema (Template (Strategy k))) = Some b" by blast
    from componentCalls_builder[OF newCatalogBuilderMap_builder[OF m this], of ctx v]
    show ?thesis by blast
  qed
  from one two shape show ?thesis by blast
qed

text \<open>
  Two runs of the theorem on the catalog \<open>stable\<close> of the specification's example, with
  validation requested and builders that can fail: in the first both components are
  built and validated, in the second the \<open>Build\<close> of the second component fails.
\<close>

theorem Render_builds_every_component_witness:
  "Render (stubExternals
             (mkCatalogConfig [mkCatalog ''stable'' ''/tmp/x'' [''olm.builder.basic'']])
             (mkCompositeConfig
                [mkComponent ''stable'' ''/out/1'' ''olm.builder.basic'' ''ok'',
                 mkComponent ''stable'' ''/out/2'' ''olm.builder.basic'' ''ok'']) [])
      stubTemplate () True noCalls
     = (None,
        \<lparr>world = [''/out/1'', ''/out/2''],
           calls = [BuildCall (''basic'', ''json'') () () ''/out/1''
                      \<lparr>TemplateDefinition.Schema = ''olm.builder.basic'', Config = ''ok''\<rparr>,
                    ValidateCall (''basic'', ''json'') () ''/out/1'',
                    BuildCall (''basic'', ''json'') () () ''/out/2''
                      \<lparr>TemplateDefinition.Schema = ''olm.builder.basic'', Config = ''ok''\<rparr>,
                    ValidateCall (''basic'', ''json'') () ''/out/2'']\<rparr>) \<and>
   execCalls (stubExternals
                (mkCatalogConfig [mkCatalog ''stable'' ''/tmp/x'' [''olm.builder.basic'']])
                (mkCompositeConfig
                   [mkComponent ''stable'' ''/out/1'' ''olm.builder.basic'' ''ok'',
                    mkComponent ''stable'' ''/out/2'' ''olm.builder.basic'' ''ok'']) [])
     (concat (map (componentCalls stubTemplate () True)
        [mkComponent ''stable'' ''/out/1'' ''olm.builder.basic'' ''ok'',
         mkComponent ''stable'' ''/out/2'' ''olm.builder.basic'' ''ok''])) []
     = [None, None, None, None] \<and>
   Render (stubExternals
             (mkCatalogConfig [mkCatalog ''stable'' ''/tmp/x'' [''olm.builder.basic'']])
             (mkCompositeConfig
                [mkComponent ''stable'' ''/out/1'' ''olm.builder.basic'' ''ok'',
                 mkComponent ''stable'' ''/out/2'' ''olm.builder.basic'' ''broken'']) [])
      stubTemplate () True noCalls
     = (Some (BuildingComponent ''stable'' (External ''cannot render'')),
        \<lparr>world = [''/out/1''],
           calls = [BuildCall (''basic'', ''json'') () () ''/out/1''
                      \<lparr>TemplateDefinition.Schema = ''olm.builder.basic'', Config = ''ok''\<rparr>,
                    ValidateCall (''basic'', ''json'') () ''/out/1'',
                    BuildCall (''basic'', ''json'') () () ''/out/2''
                      \<lparr>TemplateDefinition.Schema = ''olm.builder.basic'',
                         Config = ''broken''\<rparr>]\<rparr>)"
  using Render_builds_every_component
    [where d = "stubExternals
                  (mkCatalogConfig [mkCatalog ''stable'' ''/tmp/x'' [''olm.builder.basic'']])
                  (mkCompositeConfig
                     [mkComponent ''stable'' ''/out/1'' ''olm.builder.basic'' ''ok'',
                      mkComponent ''stable'' ''/out/2'' ''olm.builder.basic'' ''ok'']) []"
       and t = stubTemplate
       and catalogConfig = "mkCatalogConfig [mkCatalog ''stable'' ''/tmp/x'' [''olm.builder.basic'']]"
       and compositeConfig = "mkCompositeConfig
                     [mkComponent ''stable'' ''/out/1'' ''olm.builder.basic'' ''ok'',
                      mkComponent ''stable'' ''/out/2'' ''olm.builder.basic'' ''ok'']"
       and ctx = "()" and v = True and s = noCalls]
    Render_builds_every_component
    [where d = "stubExternals
                  (mkCatalogConfig [mkCatalog ''stable'' ''/tmp/x'' [''olm.builder.basic'']])
                  (mkCompositeConfig
                     [mkComponent ''stable'' ''/out/1'' ''olm.builder.basic'' ''ok'',
                      mkComponent ''stable'' ''/out/2'' ''olm.builder.basic'' ''broken'']) []"
       and t = stubTemplate
       and catalogConfig = "mkCatalogConfig [mkCatalog ''stable'' ''/tmp/x'' [''olm.builder.basic'']]"
       and compositeConfig = "mkCompositeConfig
                     [mkComponent ''stable'' ''/out/1'' ''olm.builder.basic'' ''ok'',
                      mkComponent ''stable'' ''/out/2'' ''olm.builder.basic'' ''broken'']"
       and ctx = "()" and v = True and s = noCalls]
  by (simp add: stub_defs run_defs componentCalls_def)

text \<open>
  C3 as first stated does not hold: both documents parse, the matrix is assembled and
  the one component resolves, and yet \<open>Render\<close> fails, because the builder's
  \<open>Build\<close> returns an error.
\<close>

theorem Render_fails_on_valid_documents_counterexample:
  "parseCatalogsSpec
     (stubExternals (mkCatalogConfig [mkCatalog ''stable'' ''/tmp/x'' [''olm.builder.basic'']])
        (mkCompositeConfig [mkComponent ''stable'' ''/out'' ''olm.builder.basic'' ''broken'']) [])
     stubTemplate
     = Inr (mkCatalogConfig [mkCatalog ''stable'' ''/tmp/x'' [''olm.builder.basic'']]) \<and>
   parseContributionSpec
     (stubExternals (mkCatalogConfig [mkCatalog ''stable'' ''/tmp/x'' [''olm.builder.basic'']])
        (mkCompositeConfig [mkComponent ''stable'' ''/out'' ''olm.builder.basic'' ''broken'']) [])
     stubTemplate
     = Inr (mkCompositeConfig [mkComponent ''stable'' ''/out'' ''olm.builder.basic'' ''broken'']) \<and>
   newCatalogBuilderMap
     (stubExternals (mkCatalogConfig [mkCatalog ''stable'' ''/tmp/x'' [''olm.builder.basic'']])
        (mkCompositeConfig [mkComponent ''stable'' ''/out'' ''olm.builder.basic'' ''broken'']) [])
     stubTemplate [mkCatalog ''stable'' ''/tmp/x'' [''olm.builder.basic'']] ''json''
     = Inr [(''stable'', [(''olm.builder.basic'', (''basic'', ''json''))])] \<and>
   Render
     (stubExternals (mkCatalogConfig [mkCatalog ''stable'' ''/tmp/x'' [''olm.builder.basic'']])
        (mkCompositeConfig [mkComponent ''stable'' ''/out'' ''olm.builder.basic'' ''broken'']) [])
     stubTemplate () False noCalls
     = (Some (BuildingComponent ''stable'' (External ''cannot render'')),
        \<lparr>world = [],
           calls = [BuildCall (''basic'', ''json'') () () ''/out''
                      \<lparr>TemplateDefinition.Schema = ''olm.builder.basic'',
                         Config = ''broken''\<rparr>]\<rparr>)"
  by (simp add: stub_defs run_defs)

text \<open>
  C4. Let component \<open>k\<close> be reached (the components \<open>pre\<close> before it were processed
  without error, leaving the state \<open>s1\<close>) and resolve to a builder. If its \<open>Build\<close>
  returns an error, \<open>Render\<close> returns that error wrapped with the name of \<open>k\<close>, the
  error itself being what \<open>Unwrap\<close> gives back, and the last call made is that
  \<open>Build\<close>. If \<open>Build\<close> succeeds, validation is requested and \<open>Validate\<close> returns
  an error, \<open>Render\<close> returns that error wrapped likewise, and the last call made is
  that \<open>Validate\<close>. In both cases the calls made are those of the components before
  \<open>k\<close> and of \<open>k\<close>: none for the components \<open>post\<close> after it.
\<close>

theorem Render_stops_at_first_failure:
  assumes "parseCatalogsSpec d t = Inr catalogConfig"
    and "parseContributionSpec d t = Inr compositeConfig"
    and "newCatalogBuilderMap d t (Catalogs catalogConfig) (outputType t) = Inr m"
    and "Components compositeConfig = pre @ k # post"
    and "renderComponents d t m ctx v pre s = (None, s1)"
    and "map_of m (Component.Name k) = Some builderMap"
    and "map_of builderMap (TemplateDefinition.Schema (Template (Strategy k))) = Some builder"
  shows "(\<forall>err w. Build d builder ctx (registry t) (Path (Component.Destination k))
                    (Template (Strategy k)) (world s1) = (Some err, w) \<longrightarrow>
            Render d t ctx v s =
              (Some (BuildingComponent (Component.Name k) err),
               \<lparr>world = w,
                  calls = calls s @ concat (map (componentCalls t ctx v) pre)
                            @ [BuildCall builder ctx (registry t) (Path (Component.Destination k))
                                 (Template (Strategy k))]\<rparr>) \<and>
            Unwrap (BuildingComponent (Component.Name k) err) = Some err) \<and>
         (\<forall>err w1 w2. v \<and>
              Build d builder ctx (registry t) (Path (Component.Destination k))
                (Template (Strategy k)) (world s1) = (None, w1) \<and>
              Validate d builder ctx (Path (Component.Destination k)) w1 = (Some err, w2) \<longrightarrow>
            Render d t ctx v s =
              (Some (ValidatingComponent (Component.Name k) err),
               \<lparr>world = w2,
                  calls = calls s @ concat (map (componentCalls t ctx v) pre)
                            @ [BuildCall builder ctx (registry t) (Path (Component.Destination k))
                                 (Template (Strategy k)),
                               ValidateCall builder ctx (Path (Component.Destination k))]\<rparr>) \<and>
            Unwrap (ValidatingComponent (Component.Name k) err) = Some err)"
proof -
  have R: "Render d t ctx v s = renderComponents d t m ctx v (k # post) s1"
    using Render_components[OF assms(1,2,3)] renderComponents_reach[OF assms(5)] assms(4) by simp
  note pre = renderComponents_calls[OF assms(3,5)]
  show ?thesis
    unfolding R using assms(6,7) pre
    by (simp add: callBuild_def callValidate_def)
qed

text \<open>
  Two runs of the theorem with validation requested and three components: in the first
  the \<open>Build\<close> of the second component fails, in the second its \<open>Validate\<close> does.
  The third component is never built.
\<close>

theorem Render_stops_at_first_failure_witness:
  "Render (stubExternals
             (mkCatalogConfig [mkCatalog ''stable'' ''/tmp/x'' [''olm.builder.basic'']])
             (mkCompositeConfig
                [mkComponent ''stable'' ''/out/1'' ''olm.builder.basic'' ''ok'',
                 mkComponent ''stable'' ''/out/2'' ''olm.builder.basic'' ''broken'',
                 mkComponent ''stable'' ''/out/3'' ''olm.builder.basic'' ''ok'']) [])
      stubTemplate () True noCalls
     = (Some (BuildingComponent ''stable'' (External ''cannot render'')),
        \<lparr>world = [''/out/1''],
           calls = [BuildCall (''basic'', ''json'') () () ''/out/1''
                      \<lparr>TemplateDefinition.Schema = ''olm.builder.basic'', Config = ''ok''\<rparr>,
                    ValidateCall (''basic'', ''json'') () ''/out/1'',
                    BuildCall (''basic'', ''json'') () () ''/out/2''
                      \<lparr>TemplateDefinition.Schema = ''olm.builder.basic'',
                         Config = ''broken''\<rparr>]\<rparr>) \<and>
   Render (stubExternals
             (mkCatalogConfig [mkCatalog ''stable'' ''/tmp/x'' [''olm.builder.basic'']])
             (mkCompositeConfig
                [mkComponent ''stable'' ''/out/1'' ''olm.builder.basic'' ''ok'',
                 mkComponent ''stable'' ''/out/2'' ''olm.builder.basic'' ''empty'',
                 mkComponent ''stable'' ''/out/3'' ''olm.builder.basic'' ''ok'']) [])
      stubTemplate () True noCalls
     = (Some (ValidatingComponent ''stable'' (External ''nothing to validate'')),
        \<lparr>world = [''/out/1''],
           calls = [BuildCall (''basic'', ''json'') () () ''/out/1''
                      \<lparr>TemplateDefinition.Schema = ''olm.builder.basic'', Config = ''ok''\<rparr>,
                    ValidateCall (''basic'', ''json'') () ''/out/1'',
                    BuildCall (''basic'', ''json'') () () ''/out/2''
                      \<lparr>TemplateDefinition.Schema = ''olm.builder.basic'', Config = ''empty''\<rparr>,
                    ValidateCall (''basic'', ''json'') () ''/out/2'']\<rparr>)"
  using Render_stops_at_first_failure
    [where d = "stubExternals
             (mkCatalogConfig [mkCatalog ''stable'' ''/tmp/x'' [''olm.builder.basic'']])
             (mkCompositeConfig
                [mkComponent ''stable'' ''/out/1'' ''olm.builder.basic'' ''ok'',
                 mkComponent ''stable'' ''/out/2'' ''olm.builder.basic'' ''broken'',
                 mkComponent ''stable'' ''/out/3'' ''olm.builder.basic'' ''ok'']) []"
       and t = stubTemplate
       and catalogConfig = "mkCatalogConfig [mkCatalog ''stable'' ''/tmp/x'' [''olm.builder.basic'']]"
       and compositeConfig = "mkCompositeConfig
                [mkComponent ''stable'' ''/out/1'' ''olm.builder.basic'' ''ok'',
                 mkComponent ''stable'' ''/out/2'' ''olm.builder.basic'' ''broken'',
                 mkComponent ''stable'' ''/out/3'' ''olm.builder.basic'' ''ok'']"
       and m = "[(''stable'', [(''olm.builder.basic'', (''basic'', ''json''))])]"
       and pre = "[mkComponent ''stable'' ''/out/1'' ''olm.builder.basic'' ''ok'']"
       and k = "mkComponent ''stable'' ''/out/2'' ''olm.builder.basic'' ''broken''"
       and post = "[mkComponent ''stable'' ''/out/3'' ''olm.builder.basic'' ''ok'']"
       and ctx = "()" and v = True and s = noCalls
       and ?s1.0 = "\<lparr>world = [''/out/1''],
            calls = [BuildCall (''basic'', ''json'') () () ''/out/1''
                      \<lparr>TemplateDefinition.Schema = ''olm.builder.basic'', Config = ''ok''\<rparr>,
                    ValidateCall (''basic'', ''json'') () ''/out/1'']\<rparr>"
       and builderMap = "[(''olm.builder.basic'', (''basic'', ''json''))]"
       and builder = "(''basic'', ''json'')"]
    Render_stops_at_first_failure
    [where d = "stubExternals
             (mkCatalogConfig [mkCatalog ''stable'' ''/tmp/x'' [''olm.builder.basic'']])
             (mkCompositeConfig
                [mkComponent ''stable'' ''/out/1'' ''olm.builder.basic'' ''ok'',
                 mkComponent ''stable'' ''/out/2'' ''olm.builder.basic'' ''empty'',
                 mkComponent ''stable'' ''/out/3'' ''olm.builder.basic'' ''ok'']) []"
       and t = stubTemplate
       and catalogConfig = "mkCatalogConfig [mkCatalog ''stable'' ''/tmp/x'' [''olm.builder.basic'']]"
       and compositeConfig = "mkCompositeConfig
                [mkComponent ''stable'' ''/out/1'' ''olm.builder.basic'' ''ok'',
                 mkComponent ''stable'' ''/out/2'' ''olm.builder.basic'' ''empty'',
                 mkComponent ''stable'' ''/out/3'' ''olm.builder.basic'' ''ok'']"
       and m = "[(''stable'', [(''olm.builder.basic'', (''basic'', ''json''))])]"
       and pre = "[mkComponent ''stable'' ''/out/1'' ''olm.builder.basic'' ''ok'']"
       and k = "mkComponent ''stable'' ''/out/2'' ''olm.builder.basic'' ''empty''"
       and post = "[mkComponent ''stable'' ''/out/3'' ''olm.builder.basic'' ''ok'']"
       and ctx = "()" and v = True and s = noCalls
       and ?s1.0 = "\<lparr>world = [''/out/1''],
            calls = [BuildCall (''basic'', ''json'') () () ''/out/1''
                      \<lparr>TemplateDefinition.Schema = ''olm.builder.basic'', Config = ''ok''\<rparr>,
                    ValidateCall (''basic'', ''json'') () ''/out/1'']\<rparr>"
       and builderMap = "[(''olm.builder.basic'', (''basic'', ''json''))]"
       and builder = "(''basic'', ''json'')"]
  by (simp add: stub_defs run_defs componentCalls_def)

text \<open>
  C6 (as amended). For every component \<open>k\<close> that \<open>Render\<close> reaches (the components
  \<open>pre\<close> before it were processed without error, leaving the state \<open>s1\<close>) and whose
  name is absent from the assembled map, \<open>Render\<close> fails with the
  unknown-component-catalog error. The names the error lists are exactly the keys of the
  map, the names of the catalogs of the document, each once, and every one of them occurs
  in the text of the error. The state is left as it was when \<open>k\<close> was reached: no
  \<open>Build\<close> is invoked for \<open>k\<close>.
\<close>

theorem Render_unknown_component_catalog:
  assumes "parseCatalogsSpec d t = Inr catalogConfig"
    and "parseContributionSpec d t = Inr compositeConfig"
    and "newCatalogBuilderMap d t (Catalogs catalogConfig) (outputType t) = Inr m"
    and "Components compositeConfig = pre @ k # post"
    and "renderComponents d t m ctx v pre s = (None, s1)"
    and "map_of m (Component.Name k) = None"
  shows "\<exists>allowedComponents.
           Render d t ctx v s = (Some (ComponentNotInCatalog (Component.Name k) allowedComponents), s1) \<and>
           set allowedComponents = fst ` set m \<and>
           set allowedComponents = Catalog.Name ` set (Catalogs catalogConfig) \<and>
           distinct allowedComponents \<and>
           (\<forall>n\<in>fst ` set m.
              sublist n (Error quote (ComponentNotInCatalog (Component.Name k) allowedComponents))) \<and>
           calls s1 = calls s @ concat (map (componentCalls t ctx v) pre)"
proof -
  let ?allowed = "map fst (goRange (rangePicks d) m)"
  have R: "Render d t ctx v s = renderComponents d t m ctx v (k # post) s1"
    using Render_components[OF assms(1,2,3)] renderComponents_reach[OF assms(5)] assms(4) by simp
  then have "Render d t ctx v s = (Some (ComponentNotInCatalog (Component.Name k) ?allowed), s1)"
    using assms(6) by simp
  moreover have keys: "set ?allowed = fst ` set m" by (rule goRange_keys_set)
  moreover have "set ?allowed = Catalog.Name ` set (Catalogs catalogConfig)"
    using keys newCatalogBuilderMap_dom[OF assms(3)] by simp
  moreover have "distinct ?allowed"
    using newCatalogBuilderMap_distinct[OF assms(3)] by (rule goRange_keys_distinct)
  moreover have "\<forall>n\<in>fst ` set m.
      sublist n (Error quote (ComponentNotInCatalog (Component.Name k) ?allowed))"
    using keys ComponentNotInCatalog_names[of _ ?allowed quote "Component.Name k"] by blast
  moreover note renderComponents_calls[OF assms(3,5)]
  ultimately show ?thesis by blast
qed

text \<open>
  A run of the theorem: two catalogs, a first component that is built and a second that
  names the catalog \<open>unstable\<close>; the map is ranged over starting from its second key.
\<close>

theorem Render_unknown_component_catalog_witness:
  "Render (stubExternals
             (mkCatalogConfig [mkCatalog ''stable'' ''/tmp/x'' [''olm.builder.basic''],
                               mkCatalog ''edge'' ''/tmp/y'' [''olm.builder.raw'']])
             (mkCompositeConfig
                [mkComponent ''stable'' ''/out/1'' ''olm.builder.basic'' ''ok'',
                 mkComponent ''unstable'' ''/out/2'' ''olm.builder.basic'' ''ok'']) [1])
      stubTemplate () False noCalls
     = (Some (ComponentNotInCatalog ''unstable'' [''edge'', ''stable'']),
        \<lparr>world = [''/out/1''],
           calls = [BuildCall (''basic'', ''json'') () () ''/out/1''
                      \<lparr>TemplateDefinition.Schema = ''olm.builder.basic'', Config = ''ok''\<rparr>]\<rparr>)"
  using Render_unknown_component_catalog
    [where d = "stubExternals
             (mkCatalogConfig [mkCatalog ''stable'' ''/tmp/x'' [''olm.builder.basic''],
                               mkCatalog ''edge'' ''/tmp/y'' [''olm.builder.raw'']])
             (mkCompositeConfig
                [mkComponent ''stable'' ''/out/1'' ''olm.builder.basic'' ''ok'',
                 mkComponent ''unstable'' ''/out/2'' ''olm.builder.basic'' ''ok'']) [1]"
       and t = stubTemplate
       and catalogConfig = "mkCatalogConfig [mkCatalog ''stable'' ''/tmp/x'' [''olm.builder.basic''],
                               mkCatalog ''edge'' ''/tmp/y'' [''olm.builder.raw'']]"
       and compositeConfig = "mkCompositeConfig
                [mkComponent ''stable'' ''/out/1'' ''olm.builder.basic'' ''ok'',
                 mkComponent ''unstable'' ''/out/2'' ''olm.builder.basic'' ''ok'']"
       and m = "[(''stable'', [(''olm.builder.basic'', (''basic'', ''json''))]),
                 (''edge'', [(''olm.builder.raw'', (''raw'', ''json''))])]"
       and pre = "[mkComponent ''stable'' ''/out/1'' ''olm.builder.basic'' ''ok'']"
       and k = "mkComponent ''unstable'' ''/out/2'' ''olm.builder.basic'' ''ok''"
       and post = "[]"
       and ctx = "()" and v = False and s = noCalls
       and ?s1.0 = "\<lparr>world = [''/out/1''],
            calls = [BuildCall (''basic'', ''json'') () () ''/out/1''
                      \<lparr>TemplateDefinition.Schema = ''olm.builder.basic'', Config = ''ok''\<rparr>]\<rparr>"]
  by (simp add: stub_defs run_defs)

text \<open>
  C6 as first stated does not hold: the second component names \<open>unstable\<close>, which is
  absent from the map, but \<open>Render\<close> fails with the unknown-component-schema error of
  the first component and never looks at the second.
\<close>

theorem other_error_before_unknown_catalog_counterexample:
  "map_of [(''stable'', [(''olm.builder.basic'', (''basic'', ''json''))])] ''unstable'' = None \<and>
   newCatalogBuilderMap
     (stubExternals (mkCatalogConfig [mkCatalog ''stable'' ''/tmp/x'' [''olm.builder.basic'']])
        (mkCompositeConfig
           [mkComponent ''stable'' ''/out/1'' ''olm.builder.raw'' ''ok'',
            mkComponent ''unstable'' ''/out/2'' ''olm.builder.basic'' ''ok'']) [])
     stubTemplate [mkCatalog ''stable'' ''/tmp/x'' [''olm.builder.basic'']] ''json''
     = Inr [(''stable'', [(''olm.builder.basic'', (''basic'', ''json''))])] \<and>
   Render
     (stubExternals (mkCatalogConfig [mkCatalog ''stable'' ''/tmp/x'' [''olm.builder.basic'']])
        (mkCompositeConfig
           [mkComponent ''stable'' ''/out/1'' ''olm.builder.raw'' ''ok'',
            mkComponent ''unstable'' ''/out/2'' ''olm.builder.basic'' ''ok'']) [])
     stubTemplate () False noCalls
     = (Some (NoBuilderFound ''stable'' ''olm.builder.raw''), noCalls)"
  by (simp add: stub_defs run_defs)

text \<open>
  C7 (as amended). For every component \<open>k\<close> that \<open>Render\<close> reaches (the components
  \<open>pre\<close> before it were processed without error, leaving the state \<open>s1\<close>), that
  names an existing catalog (\<open>c\<close>, the first of that name) and declares a template
  schema that is not in the builders list of \<open>c\<close>, the schema is not in the catalog's
  builder map, \<open>Render\<close> fails with the unknown-component-schema error carrying the
  component's name, and the state is left as it was when \<open>k\<close> was reached: no \<open>Build\<close>
  is invoked for \<open>k\<close>.
\<close>

theorem Render_unknown_component_schema:
  assumes "parseCatalogsSpec d t = Inr catalogConfig"
    and "parseContributionSpec d t = Inr compositeConfig"
    and "newCatalogBuilderMap d t (Catalogs catalogConfig) (outputType t) = Inr m"
    and "Components compositeConfig = pre @ k # post"
    and "renderComponents d t m ctx v pre s = (None, s1)"
    and "find (\<lambda>c. Catalog.Name c = Component.Name k) (Catalogs catalogConfig) = Some c"
    and "TemplateDefinition.Schema (Template (Strategy k)) \<notin> set (Builders c)"
  shows "\<exists>builderMap.
           map_of m (Component.Name k) = Some builderMap \<and>
           map_of builderMap (TemplateDefinition.Schema (Template (Strategy k))) = None \<and>
           Render d t ctx v s =
             (Some (NoBuilderFound (Component.Name k)
                      (TemplateDefinition.Schema (Template (Strategy k)))), s1) \<and>
           calls s1 = calls s @ concat (map (componentCalls t ctx v) pre)"
proof -
  have R: "Render d t ctx v s = renderComponents d t m ctx v (k # post) s1"
    using Render_components[OF assms(1,2,3)] renderComponents_reach[OF assms(5)] assms(4) by simp
  from newCatalogBuilderMap_resolves[OF assms(3,6)] assms(7) obtain bm where
    bm: "map_of m (Component.Name k) = Some bm"
      "map_of bm (TemplateDefinition.Schema (Template (Strategy k))) = None" by blast
  with R renderComponents_calls[OF assms(3,5)] show ?thesis by simp
qed

text \<open>
  A run of the theorem: the second component asks catalog \<open>stable\<close> for the raw
  builder, which the catalog does not declare.
\<close>

theorem Render_unknown_component_schema_witness:
  "Render (stubExternals
             (mkCatalogConfig [mkCatalog ''stable'' ''/tmp/x'' [''olm.builder.basic'']])
             (mkCompositeConfig
                [mkComponent ''stable'' ''/out/1'' ''olm.builder.basic'' ''ok'',
                 mkComponent ''stable'' ''/out/2'' ''olm.builder.raw'' ''ok'']) [])
      stubTemplate () False noCalls
     = (Some (NoBuilderFound ''stable'' ''olm.builder.raw''),
        \<lparr>world = [''/out/1''],
           calls = [BuildCall (''basic'', ''json'') () () ''/out/1''
                      \<lparr>TemplateDefinition.Schema = ''olm.builder.basic'', Config = ''ok''\<rparr>]\<rparr>)"
  using Render_unknown_component_schema
    [where d = "stubExternals
             (mkCatalogConfig [mkCatalog ''stable'' ''/tmp/x'' [''olm.builder.basic'']])
             (mkCompositeConfig
                [mkComponent ''stable'' ''/out/1'' ''olm.builder.basic'' ''ok'',
                 mkComponent ''stable'' ''/out/2'' ''olm.builder.raw'' ''ok'']) []"
       and t = stubTemplate
       and catalogConfig = "mkCatalogConfig [mkCatalog ''stable'' ''/tmp/x'' [''olm.builder.basic'']]"
       and compositeConfig = "mkCompositeConfig
                [mkComponent ''stable'' ''/out/1'' ''olm.builder.basic'' ''ok'',
                 mkComponent ''stable'' ''/out/2'' ''olm.builder.raw'' ''ok'']"
       and m = "[(''stable'', [(''olm.builder.basic'', (''basic'', ''json''))])]"
       and pre = "[mkComponent ''stable'' ''/out/1'' ''olm.builder.basic'' ''ok'']"
       and k = "mkComponent ''stable'' ''/out/2'' ''olm.builder.raw'' ''ok''"
       and post = "[]"
       and c = "mkCatalog ''stable'' ''/tmp/x'' [''olm.builder.basic'']"
       and ctx = "()" and v = False and s = noCalls
       and ?s1.0 = "\<lparr>world = [''/out/1''],
            calls = [BuildCall (''basic'', ''json'') () () ''/out/1''
                      \<lparr>TemplateDefinition.Schema = ''olm.builder.basic'', Config = ''ok''\<rparr>]\<rparr>"]
  by (simp add: stub_defs run_defs)

text \<open>
  C7 as first stated does not hold: the second component names the existing catalog
  \<open>stable\<close> with a schema the catalog does not declare, but \<open>Render\<close> fails with the
  unknown-component-catalog error of the first component.
\<close>

theorem other_error_before_unknown_schema_counterexample:
  "find (\<lambda>c. Catalog.Name c = ''stable'') [mkCatalog ''stable'' ''/tmp/x'' [''olm.builder.basic'']]
     = Some (mkCatalog ''stable'' ''/tmp/x'' [''olm.builder.basic'']) \<and>
   ''olm.builder.raw'' \<notin> set (Builders (mkCatalog ''stable'' ''/tmp/x'' [''olm.builder.basic''])) \<and>
   Render
     (stubExternals (mkCatalogConfig [mkCatalog ''stable'' ''/tmp/x'' [''olm.builder.basic'']])
        (mkCompositeConfig
           [mkComponent ''unstable'' ''/out/1'' ''olm.builder.basic'' ''ok'',
            mkComponent ''stable'' ''/out/2'' ''olm.builder.raw'' ''ok'']) [])
     stubTemplate () False noCalls
     = (Some (ComponentNotInCatalog ''unstable'' [''stable'']), noCalls)"
  by (simp add: stub_defs run_defs)

text \<open>
  C8. A Catalog document that decodes and unmarshals but whose \<open>schema\<close> field differs
  from \<open>CatalogSchema\<close> is rejected by \<open>parseCatalogsSpec\<close> with the schema-mismatch
  error, whatever else it holds; likewise a Composite document and \<open>CompositeSchema\<close>.
  When either parser fails, \<open>Render\<close> returns the parser's error and leaves the state
  untouched: it returns before the matrix is assembled, whatever the catalogs and the
  registered builders are, and no \<open>Build\<close> or \<open>Validate\<close> call is made.
\<close>

theorem schema_mismatch_is_fatal:
  "(\<forall>doc cfg. Decode d (catalogFile t) = Inr doc \<and> UnmarshalCatalogConfig d doc = Inr cfg \<and>
       CatalogConfig.Schema cfg \<noteq> CatalogSchema d \<longrightarrow>
       parseCatalogsSpec d t = Inl (CatalogUnknownSchema (CatalogSchema d))) \<and>
   (\<forall>doc cfg. Decode d (contributionFile t) = Inr doc \<and> UnmarshalCompositeConfig d doc = Inr cfg \<and>
       CompositeConfig.Schema cfg \<noteq> CompositeSchema d \<longrightarrow>
       parseContributionSpec d t = Inl (CompositeUnknownSchema (CompositeSchema d))) \<and>
   (\<forall>err. parseCatalogsSpec d t = Inl err \<longrightarrow> Render d t ctx v s = (Some err, s)) \<and>
   (\<forall>cfg err. parseCatalogsSpec d t = Inr cfg \<and> parseContributionSpec d t = Inl err \<longrightarrow>
       Render d t ctx v s = (Some err, s))"
  by (simp add: parseCatalogsSpec_def parseContributionSpec_def Render_def)

text \<open>
  Two runs of the theorem: a Catalog document with the schema \<open>olm.catalogs\<close>, and a
  Composite document that carries the schema of Catalog documents.
\<close>

theorem schema_mismatch_is_fatal_witness:
  "parseCatalogsSpec
     (stubExternals
        \<lparr>CatalogConfig.Schema = ''olm.catalogs'',
           Catalogs = [mkCatalog ''stable'' ''/tmp/x'' [''olm.builder.basic'']]\<rparr>
        (mkCompositeConfig [mkComponent ''stable'' ''/out/1'' ''olm.builder.basic'' ''ok'']) [])
     stubTemplate
     = Inl (CatalogUnknownSchema ''olm.composite.catalogs'') \<and>
   Render
     (stubExternals
        \<lparr>CatalogConfig.Schema = ''olm.catalogs'',
           Catalogs = [mkCatalog ''stable'' ''/tmp/x'' [''olm.builder.basic'']]\<rparr>
        (mkCompositeConfig [mkComponent ''stable'' ''/out/1'' ''olm.builder.basic'' ''ok'']) [])
     stubTemplate () True noCalls
     = (Some (CatalogUnknownSchema ''olm.composite.catalogs''), noCalls) \<and>
   Render
     (stubExternals
        (mkCatalogConfig [mkCatalog ''stable'' ''/tmp/x'' [''olm.builder.basic'']])
        \<lparr>CompositeConfig.Schema = ''olm.composite.catalogs'',
           Components = [mkComponent ''stable'' ''/out/1'' ''olm.builder.basic'' ''ok'']\<rparr> [])
     stubTemplate () True noCalls
     = (Some (CompositeUnknownSchema ''olm.composite''), noCalls)"
  using schema_mismatch_is_fatal
    [where d = "stubExternals
        \<lparr>CatalogConfig.Schema = ''olm.catalogs'',
           Catalogs = [mkCatalog ''stable'' ''/tmp/x'' [''olm.builder.basic'']]\<rparr>
        (mkCompositeConfig [mkComponent ''stable'' ''/out/1'' ''olm.builder.basic'' ''ok'']) []"
       and t = stubTemplate and ctx = "()" and v = True and s = noCalls]
    schema_mismatch_is_fatal
    [where d = "stubExternals
        (mkCatalogConfig [mkCatalog ''stable'' ''/tmp/x'' [''olm.builder.basic'']])
        \<lparr>CompositeConfig.Schema = ''olm.composite.catalogs'',
           Components = [mkComponent ''stable'' ''/out/1'' ''olm.builder.basic'' ''ok'']\<rparr> []"
       and t = stubTemplate and ctx = "()" and v = True and s = noCalls]
  by (simp add: stub_defs run_defs)

text \<open>
  C10. The outcome of \<open>Render\<close> does not depend on the \<open>validate\<close> field of the
  template: two templates that differ only in the value given to \<open>WithValidate\<close>
  render alike, for the same context, \<open>validate\<close> argument and starting state.
\<close>

theorem Render_ignores_validate_field:
  "Render d (WithValidate a t) ctx v s = Render d (WithValidate b t) ctx v s"
  by (simp add: WithValidate_def Render_validate_field)

section \<open>Claims about FetchCatalogConfig\<close>

text \<open>
  C9. \<open>FetchCatalogConfig\<close> takes the path for a local one exactly when
  \<open>url.ParseRequestURI\<close> fails on it or \<open>filepath.IsAbs\<close> holds of it. Then it opens
  the file (one \<open>Open\<close> call, no request), returns the open file, or the open error
  wrapped with the path when the file cannot be opened. In every other case the path
  parsed to a URI; the function sends one request for that URI through the getter it was
  given (and opens no file), returns the fetch error wrapped with the path when the getter
  fails, and otherwise the body of the response, whatever its status code.
\<close>

theorem FetchCatalogConfig_local_or_remote:
  "(isl (ParseRequestURI x path) \<or> IsAbs x path \<longrightarrow>
      (\<forall>err w. Open x path (ioWorld s) = (Inl err, w) \<longrightarrow>
         FetchCatalogConfig x path httpGetter s
           = (Inl (OpeningCatalogConfig path err),
              \<lparr>ioWorld = w, ioCalls = ioCalls s @ [OpenCall path]\<rparr>)) \<and>
      (\<forall>tempCatalog w. Open x path (ioWorld s) = (Inr tempCatalog, w) \<longrightarrow>
         FetchCatalogConfig x path httpGetter s
           = (Inr tempCatalog, \<lparr>ioWorld = w, ioCalls = ioCalls s @ [OpenCall path]\<rparr>))) \<and>
   (\<not> (isl (ParseRequestURI x path) \<or> IsAbs x path) \<longrightarrow>
      (\<exists>catalogURI. ParseRequestURI x path = Inr catalogURI \<and>
         (\<forall>err w. httpGetter (URLString x catalogURI) (ioWorld s) = (Inl err, w) \<longrightarrow>
            FetchCatalogConfig x path httpGetter s
              = (Inl (FetchingRemoteCatalogConfig path err),
                 \<lparr>ioWorld = w, ioCalls = ioCalls s @ [GetCall (URLString x catalogURI)]\<rparr>)) \<and>
         (\<forall>tempResp w. httpGetter (URLString x catalogURI) (ioWorld s) = (Inr tempResp, w) \<longrightarrow>
            FetchCatalogConfig x path httpGetter s
              = (Inr (Body tempResp),
                 \<lparr>ioWorld = w, ioCalls = ioCalls s @ [GetCall (URLString x catalogURI)]\<rparr>))))"
proof (cases "ParseRequestURI x path")
  case (Inl e)
  then show ?thesis by (simp add: FetchCatalogConfig_def)
next
  case (Inr u)
  then show ?thesis by (simp add: FetchCatalogConfig_def)
qed

text \<open>
  Three runs of the theorem: a relative path that is no request URI and does not exist,
  an absolute path that exists, and a URL whose response has status 404 and is returned
  all the same.
\<close>

theorem FetchCatalogConfig_local_or_remote_witness:
  "FetchCatalogConfig stubFetch ''catalogs.yaml'' stubGetter \<lparr>ioWorld = (), ioCalls = []\<rparr>
     = (Inl (OpeningCatalogConfig ''catalogs.yaml'' (External ''no such file or directory'')),
        \<lparr>ioWorld = (), ioCalls = [OpenCall ''catalogs.yaml'']\<rparr>) \<and>
   FetchCatalogConfig stubFetch ''/etc/catalogs.yaml'' stubGetter \<lparr>ioWorld = (), ioCalls = []\<rparr>
     = (Inr ''schema: olm.composite.catalogs'',
        \<lparr>ioWorld = (), ioCalls = [OpenCall ''/etc/catalogs.yaml'']\<rparr>) \<and>
   FetchCatalogConfig stubFetch ''http://example.com/catalogs.yaml'' stubGetter
       \<lparr>ioWorld = (), ioCalls = []\<rparr>
     = (Inr ''not found'',
        \<lparr>ioWorld = (), ioCalls = [GetCall ''http://example.com/catalogs.yaml'']\<rparr>)"
  using FetchCatalogConfig_local_or_remote
          [where x = stubFetch and path = "''catalogs.yaml''" and httpGetter = stubGetter
             and s = "\<lparr>ioWorld = (), ioCalls = []\<rparr>"]
        FetchCatalogConfig_local_or_remote
          [where x = stubFetch and path = "''/etc/catalogs.yaml''" and httpGetter = stubGetter
             and s = "\<lparr>ioWorld = (), ioCalls = []\<rparr>"]
        FetchCatalogConfig_local_or_remote
          [where x = stubFetch and path = "''http://example.com/catalogs.yaml''"
             and httpGetter = stubGetter and s = "\<lparr>ioWorld = (), ioCalls = []\<rparr>"]
  by (simp add: stubFetch_def stubGetter_def)

end
